theory Spec2Isabelle
  imports Complex_Main "HOL-Library.Word" "HOL-Library.Signed_Division" "HOL-Library.Sublist"
begin

unbundle bit_operations_syntax

section \<open>ljmd-cl.c: the host driver of the OpenCL Lennard-Jones MD code\<close>

text \<open>
  The development embeds \<^verbatim>\<open>src/ljmd-cl.c\<close>: the line reader \<^verbatim>\<open>get_me_a_line\<close>, the
  handling of the command line, and \<^verbatim>\<open>main\<close> with its initialisation and its MD loop.
  Conventions of the model:
  \<^item> \<^verbatim>\<open>FPTYPE\<close> (double or float) is the type \<open>real\<close>: host arithmetic is exact, rounding
    is not modelled.
  \<^item> \<^verbatim>\<open>int\<close> variables are \<open>int\<close>; the conversion of the \<^verbatim>\<open>long\<close> that \<^verbatim>\<open>strtol\<close> returns to
    \<^verbatim>\<open>int\<close> is the truncation to 32 bits, \<^verbatim>\<open>cl_int\<close> is \<open>32 word\<close>.
  \<^item> an array of \<^verbatim>\<open>FPTYPE\<close> (host or device) is a function from the index to the element.
  \<^item> everything the program receives from outside is a field of the record \<open>env\<close>: the
    arguments, standard input, the restart file, the status every device-facility call
    returns, and what each kernel does to the device memory (the kernels are in
    \<^verbatim>\<open>opencl_kernels_as_string.h\<close>, which is not part of the source at hand).
\<close>

subsection \<open>Characters and C strings\<close>

definition BLEN :: nat where
  "BLEN = 200"

definition isspace :: "char \<Rightarrow> bool" where
  \<comment> \<open>the C locale: space, \<^verbatim>\<open>\t \n \v \f \r\<close>; no byte above 0x7F\<close>
  "isspace c \<longleftrightarrow> c = CHR '' '' \<or> c = CHR 0x09 \<or> c = CHR 0x0A \<or> c = CHR 0x0B
     \<or> c = CHR 0x0C \<or> c = CHR 0x0D"

definition isdigit :: "char \<Rightarrow> bool" where
  "isdigit c \<longleftrightarrow> 48 \<le> (of_char c :: nat) \<and> (of_char c :: nat) \<le> 57"

definition digit_value :: "char \<Rightarrow> int" where
  "digit_value c = int (of_char c) - 48"

definition cstr :: "string \<Rightarrow> string" where
  \<comment> \<open>the C string held by a buffer: the characters before the first NUL\<close>
  "cstr b = takeWhile (\<lambda>c. c \<noteq> CHR 0x00) b"

subsection \<open>fgets\<close>

text \<open>
  A stream is the list of the characters still to be read. \<^verbatim>\<open>fgets(tmp,n,fp)\<close> reads at
  most \<open>n - 1\<close> characters and stops after a newline; it returns NULL when nothing is left.
\<close>

fun fgets_chars :: "nat \<Rightarrow> string \<Rightarrow> string \<times> string" where
  "fgets_chars 0 fp = ([], fp)"
| "fgets_chars (Suc k) [] = ([], [])"
| "fgets_chars (Suc k) (c # fp) =
     (if c = CHR 0x0A then ([c], fp)
      else (case fgets_chars k fp of (cs, fp') \<Rightarrow> (c # cs, fp')))"

definition fgets :: "nat \<Rightarrow> string \<Rightarrow> (string \<times> string) option" where
  "fgets n fp = (if fp = [] then None else Some (fgets_chars (n - 1) fp))"

subsection \<open>get_me_a_line\<close>

text \<open>
  The loop \<^verbatim>\<open>while(isspace(tmp[i])) { tmp[i]='\0'; --i; }\<close> starts at the last character.
  The second argument of \<open>trim_back\<close> is \<open>i + 1\<close>. When \<open>i\<close> reaches \<open>-1\<close> the loop reads
  \<^verbatim>\<open>tmp[-1]\<close>, outside the array: the result is \<open>None\<close>.
\<close>

fun trim_back :: "string \<Rightarrow> nat \<Rightarrow> string option" where
  "trim_back tmp 0 = None"
| "trim_back tmp (Suc i) =
     (if isspace (tmp ! i) then trim_back (take i tmp) i else Some tmp)"

datatype line_result =
    Line string string   \<comment> \<open>return 0: the contents of \<^verbatim>\<open>buf\<close>, and the rest of the stream\<close>
  | ReadError            \<comment> \<open>return -1: \<^verbatim>\<open>fgets\<close> gave NULL\<close>
  | OutOfBounds          \<comment> \<open>the read of \<^verbatim>\<open>tmp[-1]\<close>\<close>

definition get_me_a_line :: "string \<Rightarrow> line_result" where
  "get_me_a_line fp =
     (case fgets BLEN fp of
        None \<Rightarrow> ReadError
      | Some (chunk, fp') \<Rightarrow>
          (let tmp = cstr chunk;
               tmp = takeWhile (\<lambda>c. c \<noteq> CHR ''#'') tmp
           in case trim_back tmp (length tmp) of
                None \<Rightarrow> OutOfBounds
              | Some tmp \<Rightarrow>
                  (let ptr = dropWhile isspace tmp;
                       i = length ptr
                   in Line tmp fp')))"

text \<open>What the header comment of \<^verbatim>\<open>get_me_a_line\<close> and the specification describe: the
  comment cut off, and the whitespace on both sides removed.\<close>

definition stripped_line :: "string \<Rightarrow> string" where
  "stripped_line l =
     dropWhile isspace (rev (dropWhile isspace (rev (takeWhile (\<lambda>c. c \<noteq> CHR ''#'') l))))"

subsection \<open>strtol, atoi and the command line\<close>

definition LONG_MAX :: int where
  "LONG_MAX = 2 ^ 63 - 1"

definition LONG_MIN :: int where
  "LONG_MIN = - (2 ^ 63)"

fun digits :: "string \<Rightarrow> int \<Rightarrow> int" where
  "digits [] acc = acc"
| "digits (c # cs) acc = (if isdigit c then digits cs (10 * acc + digit_value c) else acc)"

definition strtol :: "string \<Rightarrow> int" where
  \<comment> \<open>\<^verbatim>\<open>strtol(s,NULL,10)\<close>: blanks, an optional sign, decimal digits; 0 when there is no
      digit to convert; the value is clamped to the range of \<^verbatim>\<open>long\<close>\<close>
  "strtol s =
     (let s1 = dropWhile isspace s;
          neg = (s1 \<noteq> [] \<and> hd s1 = CHR ''-'');
          s2 = (if s1 \<noteq> [] \<and> (hd s1 = CHR ''-'' \<or> hd s1 = CHR ''+'') then tl s1 else s1);
          v = digits s2 0
      in max LONG_MIN (min LONG_MAX (if neg then - v else v)))"

definition int_of_long :: "int \<Rightarrow> int" where
  "int_of_long v = sint (word_of_int v :: 32 word)"

definition atoi :: "string \<Rightarrow> int" where
  "atoi s = int_of_long (strtol s)"

datatype outcome =
    PrintUsageAndExit        \<comment> \<open>the usage text on stderr, then \<^verbatim>\<open>exit(1)\<close>\<close>
  | Return int               \<comment> \<open>\<^verbatim>\<open>return n\<close> from \<^verbatim>\<open>main\<close>\<close>
  | CheckSuccessFailed nat   \<comment> \<open>the run aborted at \<^verbatim>\<open>CheckSuccess(status, n)\<close>\<close>
  | UndefinedBehaviour       \<comment> \<open>an out-of-bounds read or a division by zero\<close>

fun exit_status :: "outcome \<Rightarrow> int option" where
  "exit_status PrintUsageAndExit = Some 1"
| "exit_status (Return n) = Some n"
| "exit_status (CheckSuccessFailed n) = None"
| "exit_status UndefinedBehaviour = None"

definition handle_args :: "string list \<Rightarrow> outcome + int" where
  \<comment> \<open>the \<^verbatim>\<open>switch (argc)\<close>; \<open>argv\<close> includes the program name, the result is \<^verbatim>\<open>nthreads\<close>\<close>
  "handle_args argv =
     (if length argv = 2 then
        Inr (if argv ! 1 = ''cpu'' then 16 else 1024)
      else if length argv = 3 then
        (let nthreads = int_of_long (strtol (argv ! 2))
         in if nthreads < 0 then Inl PrintUsageAndExit else Inr nthreads)
      else Inl PrintUsageAndExit)"

subsection \<open>The input script\<close>

record mdsys =
  natoms :: int
  mass :: real
  epsilon :: real
  sigma :: real
  rcut :: real
  box :: real
  restfile :: string
  trajfile :: string
  ergfile :: string
  nsteps :: int
  dt :: real
  nprint :: int

text \<open>
  \<^verbatim>\<open>main\<close> calls \<^verbatim>\<open>get_me_a_line\<close> twelve times, each call as
  \<^verbatim>\<open>if(get_me_a_line(stdin,line)) return 1;\<close>, and converts the line before the next call.
  The conversions have no effect on the stream, so the model reads the twelve lines first.
\<close>

fun get_lines :: "nat \<Rightarrow> string \<Rightarrow> outcome + string list" where
  "get_lines 0 fp = Inr []"
| "get_lines (Suc k) fp =
     (case get_me_a_line fp of
        ReadError \<Rightarrow> Inl (Return 1)
      | OutOfBounds \<Rightarrow> Inl UndefinedBehaviour
      | Line buf fp' \<Rightarrow>
          (case get_lines k fp' of Inl out \<Rightarrow> Inl out | Inr bufs \<Rightarrow> Inr (buf # bufs)))"

definition read_input :: "(string \<Rightarrow> real) \<Rightarrow> string \<Rightarrow> outcome + mdsys" where
  "read_input atof fp =
     (case get_lines 12 fp of
        Inl out \<Rightarrow> Inl out
      | Inr ls \<Rightarrow>
          Inr \<lparr>natoms = atoi (ls ! 0), mass = atof (ls ! 1), epsilon = atof (ls ! 2),
               sigma = atof (ls ! 3), rcut = atof (ls ! 4), box = atof (ls ! 5),
               restfile = ls ! 6, trajfile = ls ! 7, ergfile = ls ! 8,
               nsteps = atoi (ls ! 9), dt = atof (ls ! 10), nprint = atoi (ls ! 11)\<rparr>)"

subsection \<open>Device memory, kernels and the environment\<close>

type_synonym cl_int = "32 word"

type_synonym fparray = "nat \<Rightarrow> real"

definition CL_SUCCESS :: cl_int where
  "CL_SUCCESS = 0"

definition kboltz :: real where
  "kboltz = 0.0019872067"

definition mvsq2e :: real where
  "mvsq2e = 2390.05736153349"

definition HALF :: real where
  "HALF = 0.5"

definition TWO :: real where
  "TWO = 2"

definition THREE :: real where
  "THREE = 3"

datatype kernel =
  opencl_azzero | opencl_force | opencl_ekin | opencl_verlet_first | opencl_verlet_second

record device =
  cl_rx :: fparray
  cl_ry :: fparray
  cl_rz :: fparray
  cl_vx :: fparray
  cl_vy :: fparray
  cl_vz :: fparray
  cl_fx :: fparray
  cl_fy :: fparray
  cl_fz :: fparray
  epot_buffer :: fparray
  ekin_buffer :: fparray

text \<open>
  \<open>call_status e l n\<close> is the status returned by the device-facility call at source line
  \<open>l\<close> while \<^verbatim>\<open>sys.nfi\<close> is \<open>n\<close> (0 before the loop). \<open>run_kernel e k g d\<close> is the device
  memory after kernel \<open>k\<close> ran on memory \<open>d\<close> with \<^verbatim>\<open>globalWorkSize[0] = g\<close> and the
  arguments the program sets for \<open>k\<close>. \<open>fopen_restart e name\<close> is \<open>None\<close> when the file
  cannot be opened, else the values \<^verbatim>\<open>fscanf\<close> stores in the three staging buffers.
\<close>

record env =
  argv :: "string list"
  InitOpenCLEnvironment :: "string \<Rightarrow> cl_int"
  stdin :: string
  atof :: "string \<Rightarrow> real"
  fopen_restart :: "string \<Rightarrow> (fparray \<times> fparray \<times> fparray) option"
  call_status :: "nat \<Rightarrow> int \<Rightarrow> cl_int"
  run_kernel :: "kernel \<Rightarrow> nat \<Rightarrow> device \<Rightarrow> device"
  fresh_device :: device
  malloc_contents :: fparray

record output_rec =
  o_nfi :: int
  o_temp :: real
  o_ekin :: real
  o_epot :: real
  o_etot :: real
  o_positions :: "(real \<times> real \<times> real) list"

datatype event =
    Call nat               \<comment> \<open>a device-facility call other than a dispatch, by its source line\<close>
  | Dispatch kernel nat    \<comment> \<open>\<^verbatim>\<open>clEnqueueNDRangeKernel\<close>: the kernel and \<^verbatim>\<open>globalWorkSize[0]\<close>\<close>
  | CheckSuccess nat       \<comment> \<open>the checkpoint \<^verbatim>\<open>CheckSuccess(status, n)\<close>\<close>
  | Output output_rec      \<comment> \<open>a call of \<^verbatim>\<open>output\<close>\<close>

text \<open>
  The state of \<^verbatim>\<open>main\<close>. \<^verbatim>\<open>sys.rx\<close>, \<^verbatim>\<open>sys.ry\<close>, \<^verbatim>\<open>sys.rz\<close> point to \<^verbatim>\<open>buffers[0..2]\<close>
  whenever \<^verbatim>\<open>output\<close> is called, so the model has the three buffers only. \<open>halted\<close> is
  \<open>None\<close> while the program runs; every operation leaves a halted state as it is.
  \<open>trace\<close> lists, in order, the device-facility calls, the checkpoints and the records
  that \<^verbatim>\<open>output\<close> writes to the console, the energy file and the trajectory file.
\<close>

record state =
  status :: cl_int
  dev :: device
  buffers0 :: fparray
  buffers1 :: fparray
  buffers2 :: fparray
  tmp_epot :: fparray
  tmp_ekin :: fparray
  sys_nfi :: int
  sys_epot :: real
  sys_ekin :: real
  sys_temp :: real
  trace :: "event list"
  halted :: "outcome option"

subsection \<open>Device-facility calls and checkpoints\<close>

datatype assignment =
    Assign     \<comment> \<open>\<^verbatim>\<open>status = call(...)\<close>, or \<^verbatim>\<open>&status\<close> as the error argument\<close>
  | OrAssign   \<comment> \<open>\<^verbatim>\<open>status |= call(...)\<close>\<close>

text \<open>
  A call appends its event, stores or accumulates its status, and has its effect on the
  memories when it returns \<^verbatim>\<open>CL_SUCCESS\<close>. The effect of a call that fails is not known;
  the model leaves the memories as they are, and the theorems on data assume success.
\<close>

definition device_call ::
  "env \<Rightarrow> assignment \<Rightarrow> nat \<Rightarrow> event \<Rightarrow> (state \<Rightarrow> state) \<Rightarrow> state \<Rightarrow> state" where
  "device_call e a line ev effect s =
     (if halted s \<noteq> None then s
      else
        (let r = call_status e line (sys_nfi s);
             s' = (if r = CL_SUCCESS then effect s else s)
         in s'\<lparr>status := (case a of Assign \<Rightarrow> r | OrAssign \<Rightarrow> status s OR r),
                trace := trace s @ [ev]\<rparr>))"

text \<open>Modelled from the spec: the macro \<^verbatim>\<open>CheckSuccess\<close> of \<^verbatim>\<open>OpenCL_utils.h\<close>, which is
  not in the source at hand. A failed device operation aborts the run; the accumulated
  status is looked at here and nowhere else.\<close>

definition check_success :: "nat \<Rightarrow> state \<Rightarrow> state" where
  "check_success n s =
     (if halted s \<noteq> None then s
      else if status s \<noteq> CL_SUCCESS
        then s\<lparr>trace := trace s @ [CheckSuccess n], halted := Some (CheckSuccessFailed n)\<rparr>
        else s\<lparr>trace := trace s @ [CheckSuccess n]\<rparr>)"

definition run_all :: "(state \<Rightarrow> state) list \<Rightarrow> state \<Rightarrow> state" where
  \<comment> \<open>statements in sequence\<close>
  "run_all fs s = foldl (\<lambda>s f. f s) s fs"

definition copy_n :: "nat \<Rightarrow> fparray \<Rightarrow> fparray \<Rightarrow> fparray" where
  \<comment> \<open>a transfer of \<open>n\<close> elements from \<open>src\<close> into \<open>dst\<close>\<close>
  "copy_n n src dst = (\<lambda>i. if i < n then src i else dst i)"

definition no_effect :: "state \<Rightarrow> state" where
  "no_effect s = s"

definition set_args :: "env \<Rightarrow> assignment \<Rightarrow> nat \<Rightarrow> state \<Rightarrow> state" where
  \<comment> \<open>\<^verbatim>\<open>clSetMultKernelArgs\<close>\<close>
  "set_args e a line = device_call e a line (Call line) no_effect"

definition create :: "env \<Rightarrow> assignment \<Rightarrow> nat \<Rightarrow> state \<Rightarrow> state" where
  \<comment> \<open>\<^verbatim>\<open>clCreateBuffer\<close>, \<^verbatim>\<open>clCreateProgramWithSource\<close>, \<^verbatim>\<open>clBuildProgram\<close>, \<^verbatim>\<open>clCreateKernel\<close>\<close>
  "create e a line = device_call e a line (Call line) no_effect"

definition enqueue_kernel :: "env \<Rightarrow> assignment \<Rightarrow> nat \<Rightarrow> kernel \<Rightarrow> nat \<Rightarrow> state \<Rightarrow> state" where
  \<comment> \<open>\<^verbatim>\<open>clEnqueueNDRangeKernel\<close> with \<^verbatim>\<open>globalWorkSize[0] = g\<close>\<close>
  "enqueue_kernel e a line k g =
     device_call e a line (Dispatch k g) (\<lambda>s. s\<lparr>dev := run_kernel e k g (dev s)\<rparr>)"

definition read_buffer ::
  "env \<Rightarrow> assignment \<Rightarrow> nat \<Rightarrow> (state \<Rightarrow> state) \<Rightarrow> state \<Rightarrow> state" where
  \<comment> \<open>a blocking \<^verbatim>\<open>clEnqueueReadBuffer\<close>; the effect is the copy into host memory\<close>
  "read_buffer e a line effect = device_call e a line (Call line) effect"

definition write_buffer ::
  "env \<Rightarrow> assignment \<Rightarrow> nat \<Rightarrow> (device \<Rightarrow> device) \<Rightarrow> state \<Rightarrow> state" where
  \<comment> \<open>a blocking \<^verbatim>\<open>clEnqueueWriteBuffer\<close>\<close>
  "write_buffer e a line upd = device_call e a line (Call line) (\<lambda>s. s\<lparr>dev := upd (dev s)\<rparr>)"

subsection \<open>Energies and output\<close>

definition accumulate :: "fparray \<Rightarrow> nat \<Rightarrow> real \<Rightarrow> real" where
  \<comment> \<open>\<^verbatim>\<open>for( i = 0; i < nthreads; i++) acc += tmp[i];\<close>\<close>
  "accumulate tmp n acc = foldl (\<lambda>a i. a + tmp i) acc [0..<n]"

definition finalize_ekin :: "mdsys \<Rightarrow> state \<Rightarrow> state" where
  \<comment> \<open>\<^verbatim>\<open>sys.ekin *= HALF * mvsq2e * sys.mass; sys.temp = TWO * sys.ekin / (THREE * sys.natoms - THREE) / kboltz;\<close>\<close>
  "finalize_ekin sys s =
     (let ek = sys_ekin s * (HALF * mvsq2e * mass sys)
      in s\<lparr>sys_ekin := ek,
            sys_temp := TWO * ek / (THREE * real_of_int (natoms sys) - THREE) / kboltz\<rparr>)"

text \<open>The function \<^verbatim>\<open>output\<close> (the name is a keyword of Isabelle).\<close>

definition output_data :: "mdsys \<Rightarrow> state \<Rightarrow> state" where
  "output_data sys s =
     s\<lparr>trace := trace s @
        [Output \<lparr>o_nfi = sys_nfi s, o_temp = sys_temp s, o_ekin = sys_ekin s,
                 o_epot = sys_epot s, o_etot = sys_ekin s + sys_epot s,
                 o_positions = map (\<lambda>i. (buffers0 s i, buffers1 s i, buffers2 s i))
                                 [0..<nat (natoms sys)]\<rparr>]\<rparr>"

definition guarded :: "(state \<Rightarrow> state) \<Rightarrow> state \<Rightarrow> state" where
  \<comment> \<open>host statements run only while the program has not stopped\<close>
  "guarded f s = (if halted s \<noteq> None then s else f s)"

subsection \<open>main: allocation, restart, kernels, initial forces and energies\<close>

text \<open>The variables before the first statement. \<^verbatim>\<open>status\<close> and \<^verbatim>\<open>sys.nfi\<close> are not
  initialised in the source; both are written before they are read.\<close>

definition initial_state :: "env \<Rightarrow> state" where
  "initial_state e =
     \<lparr>status = CL_SUCCESS, dev = fresh_device e,
      buffers0 = malloc_contents e, buffers1 = malloc_contents e, buffers2 = malloc_contents e,
      tmp_epot = malloc_contents e, tmp_ekin = malloc_contents e,
      sys_nfi = 0, sys_epot = 0, sys_ekin = 0, sys_temp = 0,
      trace = [], halted = None\<rparr>"

definition allocate :: "env \<Rightarrow> state \<Rightarrow> state" where
  \<comment> \<open>lines 197 to 205: nine \<^verbatim>\<open>clCreateBuffer\<close> calls, each with \<^verbatim>\<open>&status\<close>\<close>
  "allocate e =
     run_all [create e Assign 197, create e Assign 198, create e Assign 199,
              create e Assign 200, create e Assign 201, create e Assign 202,
              create e Assign 203, create e Assign 204, create e Assign 205]"

definition read_restart :: "mdsys \<Rightarrow> fparray \<times> fparray \<times> fparray \<Rightarrow> state \<Rightarrow> state" where
  \<comment> \<open>lines 214 to 220: \<open>2 * natoms\<close> triples into \<^verbatim>\<open>buffers[0..2]\<close>\<close>
  "read_restart sys file s =
     (case file of (f0, f1, f2) \<Rightarrow>
        s\<lparr>buffers0 := copy_n (2 * nat (natoms sys)) f0 (buffers0 s),
          buffers1 := copy_n (2 * nat (natoms sys)) f1 (buffers1 s),
          buffers2 := copy_n (2 * nat (natoms sys)) f2 (buffers2 s)\<rparr>)"

definition upload_restart :: "env \<Rightarrow> mdsys \<Rightarrow> state \<Rightarrow> state" where
  \<comment> \<open>lines 222 to 228: positions from the first \<open>natoms\<close> entries, velocities from the next\<close>
  "upload_restart e sys s0 =
     (let n = nat (natoms sys) in
      run_all
        [write_buffer e Assign 222 (\<lambda>d. d\<lparr>cl_rx := copy_n n (buffers0 s0) (cl_rx d)\<rparr>),
         write_buffer e OrAssign 223 (\<lambda>d. d\<lparr>cl_ry := copy_n n (buffers1 s0) (cl_ry d)\<rparr>),
         write_buffer e OrAssign 224 (\<lambda>d. d\<lparr>cl_rz := copy_n n (buffers2 s0) (cl_rz d)\<rparr>),
         write_buffer e OrAssign 226
           (\<lambda>d. d\<lparr>cl_vx := copy_n n (\<lambda>i. buffers0 s0 (n + i)) (cl_vx d)\<rparr>),
         write_buffer e OrAssign 227
           (\<lambda>d. d\<lparr>cl_vy := copy_n n (\<lambda>i. buffers1 s0 (n + i)) (cl_vy d)\<rparr>),
         write_buffer e OrAssign 228
           (\<lambda>d. d\<lparr>cl_vz := copy_n n (\<lambda>i. buffers2 s0 (n + i)) (cl_vz d)\<rparr>)] s0)"

definition build_kernels :: "env \<Rightarrow> state \<Rightarrow> state" where
  \<comment> \<open>lines 238 to 267: the program, the five kernels, the buffer of potential-energy partials\<close>
  "build_kernels e =
     run_all [guarded (\<lambda>s. s\<lparr>sys_nfi := 0\<rparr>),
              create e Assign 247, create e OrAssign 249,
              create e Assign 258, create e Assign 259, create e Assign 260,
              create e Assign 261, create e Assign 262,
              create e Assign 267]"

definition initial_forces_energies :: "env \<Rightarrow> mdsys \<Rightarrow> nat \<Rightarrow> state \<Rightarrow> state" where
  \<comment> \<open>lines 275 to 335; \<open>g\<close> is \<^verbatim>\<open>globalWorkSize[0] = nthreads\<close>\<close>
  "initial_forces_energies e sys g =
     run_all
       [guarded (\<lambda>s. s\<lparr>sys_epot := 0, sys_ekin := 0\<rparr>),
        set_args e Assign 279,
        enqueue_kernel e Assign 281 opencl_azzero g,
        set_args e OrAssign 283,
        enqueue_kernel e Assign 298 opencl_force g,
        read_buffer e OrAssign 300
          (\<lambda>s. s\<lparr>tmp_epot := copy_n g (epot_buffer (dev s)) (tmp_epot s)\<rparr>),
        guarded (\<lambda>s. s\<lparr>sys_epot := accumulate (tmp_epot s) g (sys_epot s)\<rparr>),
        create e Assign 307,
        set_args e OrAssign 309,
        enqueue_kernel e Assign 312 opencl_ekin g,
        read_buffer e OrAssign 314
          (\<lambda>s. s\<lparr>tmp_ekin := copy_n g (ekin_buffer (dev s)) (tmp_ekin s)\<rparr>),
        guarded (\<lambda>s. s\<lparr>sys_ekin := accumulate (tmp_ekin s) g (sys_ekin s)\<rparr>),
        guarded (finalize_ekin sys),
        read_buffer e Assign 327
          (\<lambda>s. s\<lparr>buffers0 := copy_n (nat (natoms sys)) (cl_rx (dev s)) (buffers0 s)\<rparr>),
        read_buffer e OrAssign 328
          (\<lambda>s. s\<lparr>buffers1 := copy_n (nat (natoms sys)) (cl_ry (dev s)) (buffers1 s)\<rparr>),
        read_buffer e OrAssign 329
          (\<lambda>s. s\<lparr>buffers2 := copy_n (nat (natoms sys)) (cl_rz (dev s)) (buffers2 s)\<rparr>),
        guarded (output_data sys)]"

subsection \<open>main: the MD loop\<close>

text \<open>
  \<^verbatim>\<open>(sys.nfi % nprint) == r\<close>: the remainder of C truncates towards zero (\<open>smod\<close>); with
  \<^verbatim>\<open>nprint\<close> zero the division is undefined. The two corner cases of 32-bit arithmetic,
  \<^verbatim>\<open>nprint-1\<close> for \<^verbatim>\<open>nprint = INT_MIN\<close> and \<^verbatim>\<open>++sys.nfi\<close> for \<^verbatim>\<open>nsteps = INT_MAX\<close>, are
  computed in \<open>int\<close> without the overflow.
\<close>

definition if_nfi_mod :: "mdsys \<Rightarrow> int \<Rightarrow> (state \<Rightarrow> state) \<Rightarrow> state \<Rightarrow> state" where
  "if_nfi_mod sys r body s =
     (if halted s \<noteq> None then s
      else if nprint sys = 0 then s\<lparr>halted := Some UndefinedBehaviour\<rparr>
      else if sys_nfi s smod nprint sys = r then body s
      else s)"

definition verlet_first :: "env \<Rightarrow> nat \<Rightarrow> state \<Rightarrow> state" where
  \<comment> \<open>lines 352 to 367\<close>
  "verlet_first e g =
     run_all [set_args e OrAssign 352,
              check_success 2,
              enqueue_kernel e Assign 367 opencl_verlet_first g]"

definition download_positions :: "env \<Rightarrow> mdsys \<Rightarrow> state \<Rightarrow> state" where
  \<comment> \<open>lines 370 to 379\<close>
  "download_positions e sys =
     if_nfi_mod sys (nprint sys - 1)
       (run_all
          [read_buffer e Assign 371
             (\<lambda>s. s\<lparr>buffers0 := copy_n (nat (natoms sys)) (cl_rx (dev s)) (buffers0 s)\<rparr>),
           read_buffer e OrAssign 372
             (\<lambda>s. s\<lparr>buffers1 := copy_n (nat (natoms sys)) (cl_ry (dev s)) (buffers1 s)\<rparr>),
           read_buffer e OrAssign 373
             (\<lambda>s. s\<lparr>buffers2 := copy_n (nat (natoms sys)) (cl_rz (dev s)) (buffers2 s)\<rparr>),
           check_success 6])"

definition force :: "env \<Rightarrow> nat \<Rightarrow> state \<Rightarrow> state" where
  \<comment> \<open>lines 382 to 398\<close>
  "force e g =
     run_all [set_args e OrAssign 382,
              check_success 3,
              enqueue_kernel e Assign 398 opencl_force g]"

definition download_epot :: "env \<Rightarrow> mdsys \<Rightarrow> nat \<Rightarrow> state \<Rightarrow> state" where
  \<comment> \<open>lines 401 to 404\<close>
  "download_epot e sys g =
     if_nfi_mod sys (nprint sys - 1)
       (run_all
          [read_buffer e OrAssign 402
             (\<lambda>s. s\<lparr>tmp_epot := copy_n g (epot_buffer (dev s)) (tmp_epot s)\<rparr>),
           check_success 7])"

definition verlet_second :: "env \<Rightarrow> nat \<Rightarrow> state \<Rightarrow> state" where
  \<comment> \<open>lines 407 to 419\<close>
  "verlet_second e g =
     run_all [set_args e OrAssign 407,
              check_success 4,
              enqueue_kernel e Assign 419 opencl_verlet_second g]"

definition ekin_and_download :: "env \<Rightarrow> mdsys \<Rightarrow> nat \<Rightarrow> state \<Rightarrow> state" where
  \<comment> \<open>lines 421 to 433\<close>
  "ekin_and_download e sys g =
     if_nfi_mod sys (nprint sys - 1)
       (run_all
          [set_args e OrAssign 424,
           check_success 5,
           enqueue_kernel e Assign 427 opencl_ekin g,
           read_buffer e OrAssign 431
             (\<lambda>s. s\<lparr>tmp_ekin := copy_n g (ekin_buffer (dev s)) (tmp_ekin s)\<rparr>),
           check_success 8])"

definition write_output :: "mdsys \<Rightarrow> nat \<Rightarrow> state \<Rightarrow> state" where
  \<comment> \<open>lines 436 to 455\<close>
  "write_output sys g =
     if_nfi_mod sys 0
       (run_all
          [guarded (\<lambda>s. s\<lparr>sys_epot := 0, sys_ekin := 0\<rparr>),
           guarded (\<lambda>s. s\<lparr>sys_epot := accumulate (tmp_epot s) g (sys_epot s),
                           sys_ekin := accumulate (tmp_ekin s) g (sys_ekin s)\<rparr>),
           guarded (finalize_ekin sys),
           guarded (output_data sys)])"

definition md_step :: "env \<Rightarrow> mdsys \<Rightarrow> nat \<Rightarrow> int \<Rightarrow> state \<Rightarrow> state" where
  \<comment> \<open>one iteration of the loop, with \<^verbatim>\<open>sys.nfi = n\<close>\<close>
  "md_step e sys g n =
     run_all [guarded (\<lambda>s. s\<lparr>sys_nfi := n\<rparr>),
              verlet_first e g,
              download_positions e sys,
              force e g,
              download_epot e sys g,
              verlet_second e g,
              ekin_and_download e sys g,
              write_output sys g]"

definition md_loop :: "env \<Rightarrow> mdsys \<Rightarrow> nat \<Rightarrow> int \<Rightarrow> state \<Rightarrow> state" where
  \<comment> \<open>\<^verbatim>\<open>for(sys.nfi=1; sys.nfi <= m; ++sys.nfi)\<close>; \<^verbatim>\<open>main\<close> runs it with \<open>m = nsteps\<close>\<close>
  "md_loop e sys g m s = foldl (\<lambda>s n. md_step e sys g n s) s [1..m]"

subsection \<open>main\<close>

definition stopped :: "env \<Rightarrow> outcome \<Rightarrow> state" where
  "stopped e out = (initial_state e)\<lparr>halted := Some out\<rparr>"

definition finish :: "state \<Rightarrow> state" where
  \<comment> \<open>lines 476 to 484: \<^verbatim>\<open>return 0\<close>\<close>
  "finish s = (if halted s \<noteq> None then s else s\<lparr>halted := Some (Return 0)\<rparr>)"

definition main :: "env \<Rightarrow> state" where
  "main e =
     (case handle_args (argv e) of
        Inl out \<Rightarrow> stopped e out
      | Inr nthreads \<Rightarrow>
          if InitOpenCLEnvironment e (argv e ! 1) \<noteq> CL_SUCCESS then stopped e (Return 4)
          else
            (case read_input (atof e) (stdin e) of
               Inl out \<Rightarrow> stopped e out
             | Inr sys \<Rightarrow>
                 (let s = allocate e (initial_state e) in
                  case fopen_restart e (restfile sys) of
                    None \<Rightarrow> s\<lparr>halted := Some (Return 3)\<rparr>
                  | Some file \<Rightarrow>
                      finish
                        (md_loop e sys (nat nthreads) (nsteps sys)
                           (initial_forces_energies e sys (nat nthreads)
                              (build_kernels e
                                 (upload_restart e sys (read_restart sys file s))))))))"

definition exit_code :: "env \<Rightarrow> int option" where
  \<comment> \<open>the exit status of the process, when it ends with one\<close>
  "exit_code e = (case halted (main e) of None \<Rightarrow> None | Some out \<Rightarrow> exit_status out)"

subsection \<open>Reading a trace\<close>

fun dispatches :: "event list \<Rightarrow> (kernel \<times> nat) list" where
  "dispatches [] = []"
| "dispatches (Dispatch k g # evs) = (k, g) # dispatches evs"
| "dispatches (ev # evs) = dispatches evs"

definition kernels_dispatched :: "event list \<Rightarrow> kernel list" where
  "kernels_dispatched evs = map fst (dispatches evs)"

fun outputs :: "event list \<Rightarrow> output_rec list" where
  "outputs [] = []"
| "outputs (Output r # evs) = r # outputs evs"
| "outputs (ev # evs) = outputs evs"

subsection \<open>A small environment for concrete runs\<close>

text \<open>
  Two atoms; kernels that make every phase visible: the first half-step moves each \<open>x\<close>
  by one, the second half-step raises each \<open>vx\<close> by one, the force kernel writes \<open>x\<^sub>0\<close> into
  every potential-energy partial and the kinetic-energy kernel \<open>vx\<^sub>0\<close> into every
  kinetic-energy partial.
\<close>

definition example_kernel :: "kernel \<Rightarrow> nat \<Rightarrow> device \<Rightarrow> device" where
  "example_kernel k g d =
     (case k of
        opencl_azzero \<Rightarrow> d\<lparr>cl_fx := (\<lambda>i. 0), cl_fy := (\<lambda>i. 0), cl_fz := (\<lambda>i. 0)\<rparr>
      | opencl_force \<Rightarrow> d\<lparr>epot_buffer := (\<lambda>i. cl_rx d 0)\<rparr>
      | opencl_ekin \<Rightarrow> d\<lparr>ekin_buffer := (\<lambda>i. cl_vx d 0)\<rparr>
      | opencl_verlet_first \<Rightarrow> d\<lparr>cl_rx := (\<lambda>i. cl_rx d i + 1)\<rparr>
      | opencl_verlet_second \<Rightarrow> d\<lparr>cl_vx := (\<lambda>i. cl_vx d i + 1)\<rparr>)"

definition zero_device :: device where
  "zero_device =
     \<lparr>cl_rx = (\<lambda>i. 0), cl_ry = (\<lambda>i. 0), cl_rz = (\<lambda>i. 0),
      cl_vx = (\<lambda>i. 0), cl_vy = (\<lambda>i. 0), cl_vz = (\<lambda>i. 0),
      cl_fx = (\<lambda>i. 0), cl_fy = (\<lambda>i. 0), cl_fz = (\<lambda>i. 0),
      epot_buffer = (\<lambda>i. 0), ekin_buffer = (\<lambda>i. 0)\<rparr>"

definition example_stdin :: "string \<Rightarrow> string \<Rightarrow> string" where
  \<comment> \<open>the twelve lines of an input script, with the step count and the print interval given\<close>
  "example_stdin ns np =
     concat (map (\<lambda>l. l @ [CHR 0x0A])
       [''2 # natoms'', ''39.95'', ''0.2379'', ''3.401'', ''8'', ''20'',
        ''a.rest'', ''a.xyz'', ''a.dat'', ns, ''5.0'', np])"

definition example_sys :: "int \<Rightarrow> int \<Rightarrow> mdsys" where
  "example_sys ns np =
     \<lparr>natoms = 2, mass = 1, epsilon = 1, sigma = 1, rcut = 1, box = 1,
      restfile = ''a.rest'', trajfile = ''a.xyz'', ergfile = ''a.dat'',
      nsteps = ns, dt = 1, nprint = np\<rparr>"

definition example_env :: "string list \<Rightarrow> string \<Rightarrow> (nat \<Rightarrow> int \<Rightarrow> cl_int) \<Rightarrow> env" where
  "example_env args input st =
     \<lparr>argv = args, InitOpenCLEnvironment = (\<lambda>_. CL_SUCCESS),
      stdin = input, atof = (\<lambda>_. 1),
      fopen_restart = (\<lambda>_. Some ((\<lambda>i. 0), (\<lambda>i. 0), (\<lambda>i. 0))),
      call_status = st, run_kernel = example_kernel,
      fresh_device = zero_device, malloc_contents = (\<lambda>i. 0)\<rparr>"

subsection \<open>Definitions used by the statements\<close>

definition all_succeed :: "env \<Rightarrow> bool" where
  \<comment> \<open>every device-facility call of the run returns \<^verbatim>\<open>CL_SUCCESS\<close>\<close>
  "all_succeed e \<longleftrightarrow> (\<forall>l n. call_status e l n = CL_SUCCESS)"

definition report ::
  "mdsys \<Rightarrow> nat \<Rightarrow> int \<Rightarrow> fparray \<Rightarrow> fparray \<Rightarrow> fparray \<Rightarrow> fparray \<Rightarrow> fparray \<Rightarrow> output_rec" where
  \<comment> \<open>the record \<^verbatim>\<open>output\<close> writes at step \<open>n\<close> from positions \<open>x\<close>, \<open>y\<close>, \<open>z\<close> and from
      \<open>g\<close> potential-energy and kinetic-energy partials, with the formulas of the
      specification for the energies and the temperature\<close>
  "report sys g n x y z epots ekins =
     (let ek = (\<Sum>i<g. ekins i) * (1 / 2 * mass sys * mvsq2e);
          ep = (\<Sum>i<g. epots i)
      in \<lparr>o_nfi = n,
          o_temp = 2 * ek / ((3 * real_of_int (natoms sys) - 3) * kboltz),
          o_ekin = ek, o_epot = ep, o_etot = ek + ep,
          o_positions = map (\<lambda>i. (x i, y i, z i)) [0..<nat (natoms sys)]\<rparr>)"

definition after_verlet_first :: "env \<Rightarrow> mdsys \<Rightarrow> nat \<Rightarrow> state \<Rightarrow> int \<Rightarrow> device" where
  \<comment> \<open>the device memory in iteration \<open>k\<close> of a run of the loop from \<open>s0\<close>, after the first
      half-step kernel\<close>
  "after_verlet_first e sys g s0 k =
     run_kernel e opencl_verlet_first g (dev (md_loop e sys g (k - 1) s0))"

definition after_force :: "env \<Rightarrow> mdsys \<Rightarrow> nat \<Rightarrow> state \<Rightarrow> int \<Rightarrow> device" where
  \<comment> \<open>then after the force kernel\<close>
  "after_force e sys g s0 k = run_kernel e opencl_force g (after_verlet_first e sys g s0 k)"

definition after_ekin :: "env \<Rightarrow> mdsys \<Rightarrow> nat \<Rightarrow> state \<Rightarrow> int \<Rightarrow> device" where
  \<comment> \<open>then after the second half-step kernel and the kinetic-energy kernel\<close>
  "after_ekin e sys g s0 k =
     run_kernel e opencl_ekin g (run_kernel e opencl_verlet_second g (after_force e sys g s0 k))"

definition downloaded_in :: "env \<Rightarrow> mdsys \<Rightarrow> nat \<Rightarrow> state \<Rightarrow> int \<Rightarrow> int \<Rightarrow> output_rec" where
  \<comment> \<open>the record of step \<open>n\<close> built from what the read-backs of iteration \<open>k\<close> download:
      positions after the first half-step, potential-energy partials after the force
      kernel, kinetic-energy partials after the kinetic-energy kernel\<close>
  "downloaded_in e sys g s0 k n =
     report sys g n
       (cl_rx (after_verlet_first e sys g s0 k)) (cl_ry (after_verlet_first e sys g s0 k))
       (cl_rz (after_verlet_first e sys g s0 k))
       (epot_buffer (after_force e sys g s0 k)) (ekin_buffer (after_ekin e sys g s0 k))"

definition ok_status :: "nat \<Rightarrow> int \<Rightarrow> cl_int" where
  \<comment> \<open>a device on which every call succeeds\<close>
  "ok_status l n = CL_SUCCESS"

definition loop_env :: env where
  "loop_env = example_env [''./ljmd-cl.x'', ''cpu'', ''2''] (example_stdin ''2'' ''2'') ok_status"

definition loop_entry :: "env \<Rightarrow> mdsys \<Rightarrow> nat \<Rightarrow> fparray \<times> fparray \<times> fparray \<Rightarrow> state" where
  \<comment> \<open>the state of \<^verbatim>\<open>main\<close> when it enters the MD loop\<close>
  "loop_entry e sys g file =
     initial_forces_energies e sys g
       (build_kernels e (upload_restart e sys (read_restart sys file (allocate e (initial_state e)))))"

fun zero_fill_before_force :: "kernel list \<Rightarrow> bool" where
  \<comment> \<open>in a list of dispatched kernels, a zero-fill dispatch comes before the first force
      dispatch (or there is no force dispatch)\<close>
  "zero_fill_before_force [] = True"
| "zero_fill_before_force (k # ks) =
     (if k = opencl_azzero then True
      else if k = opencl_force then False
      else zero_fill_before_force ks)"

definition no_leading_digits :: "string \<Rightarrow> bool" where
  \<comment> \<open>\<^verbatim>\<open>strtol\<close> finds no digit where the number has to start: after the blanks and an
      optional sign\<close>
  "no_leading_digits s \<longleftrightarrow>
     (let s1 = dropWhile isspace s;
          s2 = (if s1 \<noteq> [] \<and> (hd s1 = CHR ''-'' \<or> hd s1 = CHR ''+'') then tl s1 else s1)
      in s2 = [] \<or> \<not> isdigit (hd s2))"

definition zero_threads_env :: env where
  "zero_threads_env =
     example_env [''./ljmd-cl.x'', ''cpu'', ''abc''] (example_stdin ''1'' ''1'') ok_status"

definition main_env :: env where
  "main_env = example_env [''./ljmd-cl.x'', ''cpu'', ''2''] (example_stdin ''1'' ''1'') ok_status"

fun read_fails_at :: "nat \<Rightarrow> string \<Rightarrow> bool" where
  \<comment> \<open>the first \<open>k\<close> calls of \<^verbatim>\<open>get_me_a_line\<close> on the stream return a line and the next
      one returns -1\<close>
  "read_fails_at 0 fp = (get_me_a_line fp = ReadError)"
| "read_fails_at (Suc k) fp =
     (case get_me_a_line fp of Line buf fp' \<Rightarrow> read_fails_at k fp' | _ \<Rightarrow> False)"

definition init_fails_env :: env where
  \<comment> \<open>three runs that end early: no device, an input script of one line, no restart file\<close>
  "init_fails_env = main_env\<lparr>InitOpenCLEnvironment := (\<lambda>_. - 1)\<rparr>"

definition short_input_env :: env where
  "short_input_env = main_env\<lparr>stdin := ''2'' @ [CHR 0x0A]\<rparr>"

definition no_restart_env :: env where
  "no_restart_env = main_env\<lparr>fopen_restart := (\<lambda>_. None)\<rparr>"

definition dispatch_fails :: "nat \<Rightarrow> int \<Rightarrow> cl_int" where
  \<comment> \<open>the dispatch of the first half-step kernel (line 367) fails in step 1 with
      \<^verbatim>\<open>CL_OUT_OF_RESOURCES\<close>; every other call succeeds\<close>
  "dispatch_fails l n = (if l = 367 \<and> n = 1 then - 5 else CL_SUCCESS)"

definition lost_status_env :: env where
  "lost_status_env =
     example_env [''./ljmd-cl.x'', ''cpu'', ''2''] (example_stdin ''1'' ''1'') dispatch_fails"

definition force_dispatch_fails :: "nat \<Rightarrow> int \<Rightarrow> cl_int" where
  \<comment> \<open>the same failure at the dispatch of the force kernel (line 398)\<close>
  "force_dispatch_fails l n = (if l = 398 \<and> n = 1 then - 5 else CL_SUCCESS)"

definition kept_status_env :: env where
  "kept_status_env =
     example_env [''./ljmd-cl.x'', ''cpu'', ''2''] (example_stdin ''1'' ''1'') force_dispatch_fails"

definition energies_finalized :: "mdsys \<Rightarrow> nat \<Rightarrow> state \<Rightarrow> bool" where
  \<comment> \<open>the kinetic energy is the sum of the \<open>g\<close> staged partials times one half, the mass and
      \<open>mvsq2e\<close>; the temperature is \<open>2 Ekin / ((3N - 3) kboltz)\<close>; the last record written
      carries both\<close>
  "energies_finalized sys g s \<longleftrightarrow>
     sys_ekin s = (\<Sum>i<g. tmp_ekin s i) * (1 / 2 * mass sys * mvsq2e)
     \<and> sys_temp s = 2 * sys_ekin s / ((3 * real_of_int (natoms sys) - 3) * kboltz)
     \<and> outputs (trace s) \<noteq> []
     \<and> o_ekin (last (outputs (trace s))) = sys_ekin s
     \<and> o_temp (last (outputs (trace s))) = sys_temp s"

section \<open>Properties\<close>

subsection \<open>The line reader\<close>

lemma trim_back_snoc:
  "trim_back (xs @ [x]) (Suc (length xs)) =
     (if isspace x then trim_back xs (length xs) else Some (xs @ [x]))"
  by (simp add: nth_append)

lemma trim_back_Some:
  "trim_back tmp (length tmp) = Some t \<Longrightarrow>
   t = rev (dropWhile isspace (rev tmp)) \<and> t \<noteq> []"
proof (induction tmp rule: rev_induct)
  case Nil
  then show ?case by simp
next
  case (snoc x xs)
  show ?case
  proof (cases "isspace x")
    case True
    then have "trim_back xs (length xs) = Some t"
      using snoc.prems by (simp add: trim_back_snoc)
    then have t: "t = rev (dropWhile isspace (rev xs)) \<and> t \<noteq> []"
      by (rule snoc.IH)
    have "rev (dropWhile isspace (rev (xs @ [x]))) = rev (dropWhile isspace (rev xs))"
      using True by simp
    with t show ?thesis by metis
  next
    case False
    then have "t = xs @ [x]"
      using snoc.prems by (simp add: trim_back_snoc)
    then show ?thesis using False by simp
  qed
qed

text \<open>What \<^verbatim>\<open>get_me_a_line\<close> hands back when it returns 0: the line with the comment cut off
  and the whitespace at its end removed. The whitespace at its start stays.\<close>

lemma get_me_a_line_Line:
  assumes "get_me_a_line fp = Line buf fp'"
  shows "\<exists>chunk. fgets BLEN fp = Some (chunk, fp')
     \<and> buf = rev (dropWhile isspace (rev (takeWhile (\<lambda>c. c \<noteq> CHR ''#'') (cstr chunk))))"
  using assms
  by (auto simp: get_me_a_line_def Let_def split: option.splits prod.splits
        dest: trim_back_Some)

text \<open>
  C4 (the value handed to the parser has the comment removed and the whitespace on both
  sides trimmed). The code computes the pointer past the leading whitespace and then
  copies \<^verbatim>\<open>tmp\<close>, not \<^verbatim>\<open>ptr\<close>: on the line \<^verbatim>\<open>"  42 # natoms\n"\<close> the buffer is
  \<^verbatim>\<open>"  42"\<close>, with the two leading blanks, where the trimmed line is \<^verbatim>\<open>"42"\<close>.
\<close>

theorem get_me_a_line_keeps_leading_whitespace:
  "get_me_a_line (''  42 # natoms'' @ [CHR 0x0A]) = Line ''  42'' []
   \<and> stripped_line (''  42 # natoms'' @ [CHR 0x0A]) = ''42''"
  by code_simp

subsection \<open>The command line\<close>

text \<open>
  C5 (a thread count that is not a positive integer leads to the usage text and exit
  status 1). The test in the code is \<^verbatim>\<open>nthreads<0\<close>, so the argument \<^verbatim>\<open>0\<close> passes: the
  result of the argument handling is \<^verbatim>\<open>nthreads = 0\<close>, not the usage exit, while \<^verbatim>\<open>-1\<close>
  is refused.
\<close>

theorem handle_args_accepts_zero_threads:
  "handle_args [''./ljmd-cl.x'', ''cpu'', ''0''] = Inr 0
   \<and> handle_args [''./ljmd-cl.x'', ''cpu'', ''-1''] = Inl PrintUsageAndExit"
  by code_simp

subsection \<open>Traces\<close>

lemma dispatches_append [simp]: "dispatches (xs @ ys) = dispatches xs @ dispatches ys"
  by (induction xs rule: dispatches.induct) simp_all

lemma outputs_append [simp]: "outputs (xs @ ys) = outputs xs @ outputs ys"
  by (induction xs rule: outputs.induct) simp_all

subsection \<open>Device calls, checkpoints and guarded statements\<close>

lemma device_call_halted: "halted s \<noteq> None \<Longrightarrow> device_call e a l ev eff s = s"
  by (simp add: device_call_def)

lemma check_success_halted: "halted s \<noteq> None \<Longrightarrow> check_success n s = s"
  by (simp add: check_success_def)

lemma guarded_halted: "halted s \<noteq> None \<Longrightarrow> guarded f s = s"
  by (simp add: guarded_def)

lemma if_nfi_mod_halted: "halted s \<noteq> None \<Longrightarrow> if_nfi_mod sys r f s = s"
  by (simp add: if_nfi_mod_def)

lemmas halted_prims = device_call_halted check_success_halted guarded_halted if_nfi_mod_halted

lemma trace_device_call:
  "trace (device_call e a l ev eff s) = (if halted s = None then trace s @ [ev] else trace s)"
  by (simp add: device_call_def Let_def)

lemma status_device_call:
  "status (device_call e a l ev eff s) =
     (if halted s = None
      then (case a of Assign \<Rightarrow> call_status e l (sys_nfi s)
                    | OrAssign \<Rightarrow> status s OR call_status e l (sys_nfi s))
      else status s)"
  by (simp add: device_call_def Let_def)

lemma halted_device_call:
  "(\<And>t. halted (eff t) = halted t) \<Longrightarrow> halted (device_call e a l ev eff s) = halted s"
  by (simp add: device_call_def Let_def)

lemma sys_nfi_device_call:
  "(\<And>t. sys_nfi (eff t) = sys_nfi t) \<Longrightarrow> sys_nfi (device_call e a l ev eff s) = sys_nfi s"
  by (simp add: device_call_def Let_def)

lemma trace_check_success:
  "trace (check_success n s) = (if halted s = None then trace s @ [CheckSuccess n] else trace s)"
  by (simp add: check_success_def)

lemma halted_check_success:
  "halted (check_success n s) =
     (if halted s = None \<and> status s \<noteq> CL_SUCCESS then Some (CheckSuccessFailed n) else halted s)"
  by (simp add: check_success_def)

lemma status_check_success: "status (check_success n s) = status s"
  by (simp add: check_success_def)

lemma sys_nfi_check_success: "sys_nfi (check_success n s) = sys_nfi s"
  by (simp add: check_success_def)

lemmas call_defs = set_args_def create_def enqueue_kernel_def read_buffer_def write_buffer_def
  no_effect_def

lemmas field_simps_calls = trace_device_call status_device_call halted_device_call
  sys_nfi_device_call trace_check_success halted_check_success status_check_success
  sys_nfi_check_success

lemma trace_guarded: "(\<And>s. trace (f s) = trace s) \<Longrightarrow> trace (guarded f s) = trace s"
  by (simp add: guarded_def)

lemma halted_guarded: "(\<And>s. halted (f s) = halted s) \<Longrightarrow> halted (guarded f s) = halted s"
  by (simp add: guarded_def)

lemma sys_nfi_guarded: "(\<And>s. sys_nfi (f s) = sys_nfi s) \<Longrightarrow> sys_nfi (guarded f s) = sys_nfi s"
  by (simp add: guarded_def)

subsection \<open>The blocks of the loop: halting and dispatches, for every environment\<close>

lemma verlet_first_halted: "halted s \<noteq> None \<Longrightarrow> verlet_first e g s = s"
  by (simp add: verlet_first_def run_all_def call_defs halted_prims)

lemma download_positions_halted: "halted s \<noteq> None \<Longrightarrow> download_positions e sys s = s"
  by (simp add: download_positions_def halted_prims)

lemma force_halted: "halted s \<noteq> None \<Longrightarrow> force e g s = s"
  by (simp add: force_def run_all_def call_defs halted_prims)

lemma download_epot_halted: "halted s \<noteq> None \<Longrightarrow> download_epot e sys g s = s"
  by (simp add: download_epot_def halted_prims)

lemma verlet_second_halted: "halted s \<noteq> None \<Longrightarrow> verlet_second e g s = s"
  by (simp add: verlet_second_def run_all_def call_defs halted_prims)

lemma ekin_and_download_halted: "halted s \<noteq> None \<Longrightarrow> ekin_and_download e sys g s = s"
  by (simp add: ekin_and_download_def halted_prims)

lemma write_output_halted: "halted s \<noteq> None \<Longrightarrow> write_output sys g s = s"
  by (simp add: write_output_def halted_prims)

lemma verlet_first_nfi [simp]: "sys_nfi (verlet_first e g s) = sys_nfi s"
  by (simp add: verlet_first_def run_all_def call_defs field_simps_calls)

lemma download_positions_nfi [simp]: "sys_nfi (download_positions e sys s) = sys_nfi s"
  by (simp add: download_positions_def if_nfi_mod_def run_all_def call_defs field_simps_calls)

lemma force_nfi [simp]: "sys_nfi (force e g s) = sys_nfi s"
  by (simp add: force_def run_all_def call_defs field_simps_calls)

lemma download_epot_nfi [simp]: "sys_nfi (download_epot e sys g s) = sys_nfi s"
  by (simp add: download_epot_def if_nfi_mod_def run_all_def call_defs field_simps_calls)

lemma verlet_second_nfi [simp]: "sys_nfi (verlet_second e g s) = sys_nfi s"
  by (simp add: verlet_second_def run_all_def call_defs field_simps_calls)

lemma ekin_and_download_nfi [simp]: "sys_nfi (ekin_and_download e sys g s) = sys_nfi s"
  by (simp add: ekin_and_download_def if_nfi_mod_def run_all_def call_defs field_simps_calls)

lemma verlet_first_dispatches:
  "dispatches (trace (verlet_first e g s)) =
     dispatches (trace s) @
       (if halted (verlet_first e g s) = None then [(opencl_verlet_first, g)] else [])"
  by (simp add: verlet_first_def run_all_def call_defs field_simps_calls)

lemma force_dispatches:
  "dispatches (trace (force e g s)) =
     dispatches (trace s) @ (if halted (force e g s) = None then [(opencl_force, g)] else [])"
  by (simp add: force_def run_all_def call_defs field_simps_calls)

lemma verlet_second_dispatches:
  "dispatches (trace (verlet_second e g s)) =
     dispatches (trace s) @
       (if halted (verlet_second e g s) = None then [(opencl_verlet_second, g)] else [])"
  by (simp add: verlet_second_def run_all_def call_defs field_simps_calls)

lemma download_positions_dispatches [simp]:
  "dispatches (trace (download_positions e sys s)) = dispatches (trace s)"
  by (simp add: download_positions_def if_nfi_mod_def run_all_def call_defs field_simps_calls)

lemma download_epot_dispatches [simp]:
  "dispatches (trace (download_epot e sys g s)) = dispatches (trace s)"
  by (simp add: download_epot_def if_nfi_mod_def run_all_def call_defs field_simps_calls)

lemma write_output_dispatches [simp]:
  "dispatches (trace (write_output sys g s)) = dispatches (trace s)"
  by (simp add: write_output_def if_nfi_mod_def run_all_def guarded_def finalize_ekin_def
        output_data_def Let_def)

lemma ekin_and_download_dispatches:
  "\<exists>ks. dispatches (trace (ekin_and_download e sys g s)) = dispatches (trace s) @ ks
     \<and> (ks = [] \<or> ks = [(opencl_ekin, g)])
     \<and> (halted (ekin_and_download e sys g s) = None \<longrightarrow>
          ks = (if sys_nfi s smod nprint sys = nprint sys - 1 then [(opencl_ekin, g)] else []))"
  by (auto simp add: ekin_and_download_def if_nfi_mod_def run_all_def call_defs field_simps_calls)

lemma md_step_unfold:
  "md_step e sys g n s =
     write_output sys g (ekin_and_download e sys g (verlet_second e g (download_epot e sys g
       (force e g (download_positions e sys (verlet_first e g (guarded (\<lambda>s. s\<lparr>sys_nfi := n\<rparr>) s)))))))"
  by (simp add: md_step_def run_all_def)

lemmas halted_blocks = verlet_first_halted download_positions_halted force_halted
  download_epot_halted verlet_second_halted ekin_and_download_halted write_output_halted

lemma md_step_halted: "halted s \<noteq> None \<Longrightarrow> md_step e sys g n s = s"
  by (simp add: md_step_unfold halted_prims halted_blocks)

lemma md_step_dispatches:
  assumes "halted s = None"
  shows "\<exists>ks. dispatches (trace (md_step e sys g n s)) = dispatches (trace s) @ ks
     \<and> prefix ks [(opencl_verlet_first, g), (opencl_force, g), (opencl_verlet_second, g), (opencl_ekin, g)]
     \<and> (halted (md_step e sys g n s) = None \<longrightarrow>
          ks = [(opencl_verlet_first, g), (opencl_force, g), (opencl_verlet_second, g)] @
               (if n smod nprint sys = nprint sys - 1 then [(opencl_ekin, g)] else []))"
proof -
  define s0 where "s0 = s\<lparr>sys_nfi := n\<rparr>"
  define s1 where "s1 = verlet_first e g s0"
  define s2 where "s2 = download_positions e sys s1"
  define s3 where "s3 = force e g s2"
  define s4 where "s4 = download_epot e sys g s3"
  define s5 where "s5 = verlet_second e g s4"
  define s6 where "s6 = ekin_and_download e sys g s5"
  have step: "md_step e sys g n s = write_output sys g s6"
    using assms by (simp add: md_step_unfold guarded_def s0_def s1_def s2_def s3_def s4_def s5_def s6_def)
  have nfi: "sys_nfi s5 = n"
    by (simp add: s0_def s1_def s2_def s3_def s4_def s5_def)
  have h12: "halted s1 \<noteq> None \<Longrightarrow> s2 = s1" by (simp add: s2_def download_positions_halted)
  have h23: "halted s2 \<noteq> None \<Longrightarrow> s3 = s2" by (simp add: s3_def force_halted)
  have h34: "halted s3 \<noteq> None \<Longrightarrow> s4 = s3" by (simp add: s4_def download_epot_halted)
  have h45: "halted s4 \<noteq> None \<Longrightarrow> s5 = s4" by (simp add: s5_def verlet_second_halted)
  have h56: "halted s5 \<noteq> None \<Longrightarrow> s6 = s5" by (simp add: s6_def ekin_and_download_halted)
  have h67: "halted s6 \<noteq> None \<Longrightarrow> write_output sys g s6 = s6"
    by (rule write_output_halted)
  have d1: "dispatches (trace s1) = dispatches (trace s) @
      (if halted s1 = None then [(opencl_verlet_first, g)] else [])"
    using verlet_first_dispatches [of e g s0] by (simp add: s1_def s0_def)
  have d3: "dispatches (trace s3) = dispatches (trace s1) @
      (if halted s3 = None then [(opencl_force, g)] else [])"
    using force_dispatches [of e g s2] by (simp add: s3_def s2_def)
  have d5: "dispatches (trace s5) = dispatches (trace s3) @
      (if halted s5 = None then [(opencl_verlet_second, g)] else [])"
    using verlet_second_dispatches [of e g s4] by (simp add: s5_def s4_def)
  obtain ks where d6: "dispatches (trace s6) = dispatches (trace s5) @ ks"
    and ks: "ks = [] \<or> ks = [(opencl_ekin, g)]"
    and ks': "halted s6 = None \<longrightarrow>
       ks = (if n smod nprint sys = nprint sys - 1 then [(opencl_ekin, g)] else [])"
    using ekin_and_download_dispatches [of e sys g s5] nfi by (auto simp: s6_def)
  have d7: "dispatches (trace (md_step e sys g n s)) = dispatches (trace s6)"
    by (simp add: step)
  have k56: "halted s5 \<noteq> None \<Longrightarrow> ks = []"
    using d6 h56 by auto
  show ?thesis
  proof (intro exI conjI impI)
    show "dispatches (trace (md_step e sys g n s)) = dispatches (trace s) @
        ((if halted s1 = None then [(opencl_verlet_first, g)] else []) @
         (if halted s3 = None then [(opencl_force, g)] else []) @
         (if halted s5 = None then [(opencl_verlet_second, g)] else []) @ ks)"
      by (simp add: d7 d6 d5 d3 d1)
  next
    show "prefix ((if halted s1 = None then [(opencl_verlet_first, g)] else []) @
         (if halted s3 = None then [(opencl_force, g)] else []) @
         (if halted s5 = None then [(opencl_verlet_second, g)] else []) @ ks)
       [(opencl_verlet_first, g), (opencl_force, g), (opencl_verlet_second, g), (opencl_ekin, g)]"
      using ks k56 h12 h23 h34 h45 by (auto simp: prefix_def)
  next
    assume "halted (md_step e sys g n s) = None"
    then have a6: "halted s6 = None" by (metis h67 step)
    then have a5: "halted s5 = None" by (metis h56)
    then have a3: "halted s3 = None" by (metis h34 h45)
    then have a1: "halted s1 = None" by (metis h12 h23)
    show "(if halted s1 = None then [(opencl_verlet_first, g)] else []) @
         (if halted s3 = None then [(opencl_force, g)] else []) @
         (if halted s5 = None then [(opencl_verlet_second, g)] else []) @ ks =
        [(opencl_verlet_first, g), (opencl_force, g), (opencl_verlet_second, g)] @
               (if n smod nprint sys = nprint sys - 1 then [(opencl_ekin, g)] else [])"
      using a1 a3 a5 a6 ks' by simp
  qed
qed

subsection \<open>The blocks of the loop when their calls succeed\<close>

lemma accumulate_sum: "accumulate tmp n a = a + (\<Sum>i<n. tmp i)"
  by (induction n) (simp_all add: accumulate_def)

lemma device_call_success:
  "call_status e l (sys_nfi s) = CL_SUCCESS \<Longrightarrow> halted s = None \<Longrightarrow> status s = CL_SUCCESS \<Longrightarrow>
   device_call e a l ev eff s = (eff s)\<lparr>status := CL_SUCCESS, trace := trace s @ [ev]\<rparr>"
  by (cases a) (simp_all add: device_call_def)

lemma device_call_assign_success:
  "call_status e l (sys_nfi s) = CL_SUCCESS \<Longrightarrow> halted s = None \<Longrightarrow>
   device_call e Assign l ev eff s = (eff s)\<lparr>status := CL_SUCCESS, trace := trace s @ [ev]\<rparr>"
  by (simp add: device_call_def)

lemma check_success_pass:
  "halted s = None \<Longrightarrow> status s = CL_SUCCESS \<Longrightarrow>
   check_success n s = s\<lparr>trace := trace s @ [CheckSuccess n]\<rparr>"
  by (simp add: check_success_def)

lemma verlet_first_success:
  assumes "call_status e 352 (sys_nfi s) = CL_SUCCESS"
    and "call_status e 367 (sys_nfi s) = CL_SUCCESS"
    and "halted s = None"
    and "status s = CL_SUCCESS"
  shows "verlet_first e g s =
     s\<lparr>dev := run_kernel e opencl_verlet_first g (dev s),
       trace := trace s @ [Call 352, CheckSuccess 2, Dispatch opencl_verlet_first g]\<rparr>"
  using assms
  by (simp add: verlet_first_def run_all_def call_defs device_call_success check_success_pass)

lemma force_success:
  assumes "call_status e 382 (sys_nfi s) = CL_SUCCESS"
    and "call_status e 398 (sys_nfi s) = CL_SUCCESS"
    and "halted s = None"
    and "status s = CL_SUCCESS"
  shows "force e g s =
     s\<lparr>dev := run_kernel e opencl_force g (dev s),
       trace := trace s @ [Call 382, CheckSuccess 3, Dispatch opencl_force g]\<rparr>"
  using assms
  by (simp add: force_def run_all_def call_defs device_call_success check_success_pass)

lemma verlet_second_success:
  assumes "call_status e 407 (sys_nfi s) = CL_SUCCESS"
    and "call_status e 419 (sys_nfi s) = CL_SUCCESS"
    and "halted s = None"
    and "status s = CL_SUCCESS"
  shows "verlet_second e g s =
     s\<lparr>dev := run_kernel e opencl_verlet_second g (dev s),
       trace := trace s @ [Call 407, CheckSuccess 4, Dispatch opencl_verlet_second g]\<rparr>"
  using assms
  by (simp add: verlet_second_def run_all_def call_defs device_call_success check_success_pass)

lemma download_positions_success:
  assumes "call_status e 371 (sys_nfi s) = CL_SUCCESS"
    and "call_status e 372 (sys_nfi s) = CL_SUCCESS"
    and "call_status e 373 (sys_nfi s) = CL_SUCCESS"
    and "halted s = None"
    "nprint sys \<noteq> 0" "sys_nfi s smod nprint sys = nprint sys - 1"
  shows "download_positions e sys s =
     s\<lparr>status := CL_SUCCESS,
       buffers0 := copy_n (nat (natoms sys)) (cl_rx (dev s)) (buffers0 s),
       buffers1 := copy_n (nat (natoms sys)) (cl_ry (dev s)) (buffers1 s),
       buffers2 := copy_n (nat (natoms sys)) (cl_rz (dev s)) (buffers2 s),
       trace := trace s @ [Call 371, Call 372, Call 373, CheckSuccess 6]\<rparr>"
  using assms
  by (simp add: download_positions_def if_nfi_mod_def run_all_def call_defs
        device_call_success device_call_assign_success check_success_pass)

lemma download_epot_success:
  assumes "call_status e 402 (sys_nfi s) = CL_SUCCESS"
    and "halted s = None"
    and "status s = CL_SUCCESS"
    "nprint sys \<noteq> 0" "sys_nfi s smod nprint sys = nprint sys - 1"
  shows "download_epot e sys g s =
     s\<lparr>tmp_epot := copy_n g (epot_buffer (dev s)) (tmp_epot s),
       trace := trace s @ [Call 402, CheckSuccess 7]\<rparr>"
  using assms
  by (simp add: download_epot_def if_nfi_mod_def run_all_def call_defs
        device_call_success check_success_pass)

lemma ekin_and_download_success:
  assumes "call_status e 424 (sys_nfi s) = CL_SUCCESS"
    and "call_status e 427 (sys_nfi s) = CL_SUCCESS"
    and "call_status e 431 (sys_nfi s) = CL_SUCCESS"
    and "halted s = None"
    and "status s = CL_SUCCESS"
    "nprint sys \<noteq> 0" "sys_nfi s smod nprint sys = nprint sys - 1"
  shows "ekin_and_download e sys g s =
     s\<lparr>dev := run_kernel e opencl_ekin g (dev s),
       tmp_ekin := copy_n g (ekin_buffer (run_kernel e opencl_ekin g (dev s))) (tmp_ekin s),
       trace := trace s @ [Call 424, CheckSuccess 5, Dispatch opencl_ekin g, Call 431, CheckSuccess 8]\<rparr>"
  using assms
  by (simp add: ekin_and_download_def if_nfi_mod_def run_all_def call_defs
        device_call_success check_success_pass)

lemma readback_skipped:
  assumes "halted s = None" "nprint sys \<noteq> 0" "sys_nfi s smod nprint sys \<noteq> nprint sys - 1"
  shows "download_positions e sys s = s" "download_epot e sys g s = s"
    "ekin_and_download e sys g s = s"
  using assms
  by (simp_all add: download_positions_def download_epot_def ekin_and_download_def if_nfi_mod_def)

lemma write_output_run:
  assumes "halted s = None" "nprint sys \<noteq> 0" "sys_nfi s smod nprint sys = 0"
  shows "write_output sys g s =
     s\<lparr>sys_epot := o_epot (report sys g (sys_nfi s) (buffers0 s) (buffers1 s) (buffers2 s) (tmp_epot s) (tmp_ekin s)),
       sys_ekin := o_ekin (report sys g (sys_nfi s) (buffers0 s) (buffers1 s) (buffers2 s) (tmp_epot s) (tmp_ekin s)),
       sys_temp := o_temp (report sys g (sys_nfi s) (buffers0 s) (buffers1 s) (buffers2 s) (tmp_epot s) (tmp_ekin s)),
       trace := trace s @ [Output (report sys g (sys_nfi s) (buffers0 s) (buffers1 s) (buffers2 s) (tmp_epot s) (tmp_ekin s))]\<rparr>"
  using assms
  by (simp add: write_output_def if_nfi_mod_def run_all_def guarded_def finalize_ekin_def
        output_data_def report_def Let_def accumulate_sum HALF_def TWO_def THREE_def)

lemma write_output_skipped:
  assumes "halted s = None" "nprint sys \<noteq> 0" "sys_nfi s smod nprint sys \<noteq> 0"
  shows "write_output sys g s = s"
  using assms by (simp add: write_output_def if_nfi_mod_def)

subsection \<open>One iteration when its calls succeed\<close>

lemma md_step_readback:
  fixes e :: env and sys :: mdsys and g :: nat and n :: int and s :: state
  assumes calls: "\<And>l. call_status e l n = CL_SUCCESS"
    and s: "halted s = None" "status s = CL_SUCCESS"
    and np: "nprint sys \<noteq> 0" and rb: "n smod nprint sys = nprint sys - 1"
  defines "d1 \<equiv> run_kernel e opencl_verlet_first g (dev s)"
  defines "d2 \<equiv> run_kernel e opencl_force g d1"
  defines "d4 \<equiv> run_kernel e opencl_ekin g (run_kernel e opencl_verlet_second g d2)"
  defines "s' \<equiv> md_step e sys g n s"
  shows "halted s' = None" "status s' = CL_SUCCESS" "dev s' = d4"
    "buffers0 s' = copy_n (nat (natoms sys)) (cl_rx d1) (buffers0 s)"
    "buffers1 s' = copy_n (nat (natoms sys)) (cl_ry d1) (buffers1 s)"
    "buffers2 s' = copy_n (nat (natoms sys)) (cl_rz d1) (buffers2 s)"
    "tmp_epot s' = copy_n g (epot_buffer d2) (tmp_epot s)"
    "tmp_ekin s' = copy_n g (ekin_buffer d4) (tmp_ekin s)"
    "outputs (trace s') = outputs (trace s) @
       (if n smod nprint sys = 0
        then [report sys g n (buffers0 s') (buffers1 s') (buffers2 s') (tmp_epot s') (tmp_ekin s')]
        else [])"
proof -
  define t where "t = ekin_and_download e sys g (verlet_second e g (download_epot e sys g
       (force e g (download_positions e sys (verlet_first e g (s\<lparr>sys_nfi := n\<rparr>))))))"
  have t: "t = s\<lparr>sys_nfi := n, dev := d4,
      buffers0 := copy_n (nat (natoms sys)) (cl_rx d1) (buffers0 s),
      buffers1 := copy_n (nat (natoms sys)) (cl_ry d1) (buffers1 s),
      buffers2 := copy_n (nat (natoms sys)) (cl_rz d1) (buffers2 s),
      tmp_epot := copy_n g (epot_buffer d2) (tmp_epot s),
      tmp_ekin := copy_n g (ekin_buffer d4) (tmp_ekin s),
      trace := trace s @ [Call 352, CheckSuccess 2, Dispatch opencl_verlet_first g,
        Call 371, Call 372, Call 373, CheckSuccess 6,
        Call 382, CheckSuccess 3, Dispatch opencl_force g, Call 402, CheckSuccess 7,
        Call 407, CheckSuccess 4, Dispatch opencl_verlet_second g,
        Call 424, CheckSuccess 5, Dispatch opencl_ekin g, Call 431, CheckSuccess 8]\<rparr>"
    unfolding t_def using calls s np rb
    by (simp add: verlet_first_success download_positions_success force_success
          download_epot_success verlet_second_success ekin_and_download_success
          d1_def d2_def d4_def)
  have step: "s' = write_output sys g t"
    using s by (simp add: s'_def md_step_unfold guarded_def t_def)
  have th: "halted t = None" "sys_nfi t = n" using s by (simp_all add: t)
  show "halted s' = None" "status s' = CL_SUCCESS" "dev s' = d4"
    "buffers0 s' = copy_n (nat (natoms sys)) (cl_rx d1) (buffers0 s)"
    "buffers1 s' = copy_n (nat (natoms sys)) (cl_ry d1) (buffers1 s)"
    "buffers2 s' = copy_n (nat (natoms sys)) (cl_rz d1) (buffers2 s)"
    "tmp_epot s' = copy_n g (epot_buffer d2) (tmp_epot s)"
    "tmp_ekin s' = copy_n g (ekin_buffer d4) (tmp_ekin s)"
    using th np s
    by (cases "n smod nprint sys = 0";
        simp add: step write_output_run write_output_skipped; simp add: t)+
  show "outputs (trace s') = outputs (trace s) @
       (if n smod nprint sys = 0
        then [report sys g n (buffers0 s') (buffers1 s') (buffers2 s') (tmp_epot s') (tmp_ekin s')]
        else [])"
    using th np s
    by (cases "n smod nprint sys = 0";
        simp add: step write_output_run write_output_skipped; simp add: t)
qed

lemma md_step_plain:
  fixes e :: env and sys :: mdsys and g :: nat and n :: int and s :: state
  assumes calls: "\<And>l. call_status e l n = CL_SUCCESS"
    and s: "halted s = None" "status s = CL_SUCCESS"
    and np: "nprint sys \<noteq> 0" and rb: "n smod nprint sys \<noteq> nprint sys - 1"
  defines "s' \<equiv> md_step e sys g n s"
  shows "halted s' = None" "status s' = CL_SUCCESS"
    "dev s' = run_kernel e opencl_verlet_second g (run_kernel e opencl_force g
       (run_kernel e opencl_verlet_first g (dev s)))"
    "buffers0 s' = buffers0 s" "buffers1 s' = buffers1 s" "buffers2 s' = buffers2 s"
    "tmp_epot s' = tmp_epot s" "tmp_ekin s' = tmp_ekin s"
    "outputs (trace s') = outputs (trace s) @
       (if n smod nprint sys = 0
        then [report sys g n (buffers0 s) (buffers1 s) (buffers2 s) (tmp_epot s) (tmp_ekin s)]
        else [])"
proof -
  define t where "t = ekin_and_download e sys g (verlet_second e g (download_epot e sys g
       (force e g (download_positions e sys (verlet_first e g (s\<lparr>sys_nfi := n\<rparr>))))))"
  have t: "t = s\<lparr>sys_nfi := n,
      dev := run_kernel e opencl_verlet_second g (run_kernel e opencl_force g
       (run_kernel e opencl_verlet_first g (dev s))),
      trace := trace s @ [Call 352, CheckSuccess 2, Dispatch opencl_verlet_first g,
        Call 382, CheckSuccess 3, Dispatch opencl_force g,
        Call 407, CheckSuccess 4, Dispatch opencl_verlet_second g]\<rparr>"
    unfolding t_def using calls s np rb
    by (simp add: verlet_first_success readback_skipped force_success verlet_second_success)
  have step: "s' = write_output sys g t"
    using s by (simp add: s'_def md_step_unfold guarded_def t_def)
  have th: "halted t = None" "sys_nfi t = n" using s by (simp_all add: t)
  show "halted s' = None" "status s' = CL_SUCCESS"
    "dev s' = run_kernel e opencl_verlet_second g (run_kernel e opencl_force g
       (run_kernel e opencl_verlet_first g (dev s)))"
    "buffers0 s' = buffers0 s" "buffers1 s' = buffers1 s" "buffers2 s' = buffers2 s"
    "tmp_epot s' = tmp_epot s" "tmp_ekin s' = tmp_ekin s"
    using th np s
    by (cases "n smod nprint sys = 0";
        simp add: step write_output_run write_output_skipped; simp add: t)+
  show "outputs (trace s') = outputs (trace s) @
       (if n smod nprint sys = 0
        then [report sys g n (buffers0 s) (buffers1 s) (buffers2 s) (tmp_epot s) (tmp_ekin s)]
        else [])"
    using th np s
    by (cases "n smod nprint sys = 0";
        simp add: step write_output_run write_output_skipped; simp add: t)
qed

lemma md_step_ok:
  assumes "\<And>l. call_status e l n = CL_SUCCESS" "halted s = None" "status s = CL_SUCCESS"
    "nprint sys \<noteq> 0"
  shows "halted (md_step e sys g n s) = None \<and> status (md_step e sys g n s) = CL_SUCCESS"
  using md_step_readback(1,2) [of e n s sys g] md_step_plain(1,2) [of e n s sys g] assms
  by (cases "n smod nprint sys = nprint sys - 1") simp_all

subsection \<open>The loop\<close>

lemma md_loop_nonpos: "m < 1 \<Longrightarrow> md_loop e sys g m s = s"
  by (simp add: md_loop_def)

lemma md_loop_step: "1 \<le> m \<Longrightarrow> md_loop e sys g m s = md_step e sys g m (md_loop e sys g (m - 1) s)"
  by (simp add: md_loop_def upto_rec2)

lemma steps_ok:
  assumes "all_succeed e" "nprint sys \<noteq> 0"
  shows "halted s = None \<Longrightarrow> status s = CL_SUCCESS \<Longrightarrow>
     halted (foldl (\<lambda>s n. md_step e sys g n s) s ns) = None \<and>
     status (foldl (\<lambda>s n. md_step e sys g n s) s ns) = CL_SUCCESS"
proof (induction ns arbitrary: s)
  case Nil
  then show ?case by simp
next
  case (Cons n ns)
  have "halted (md_step e sys g n s) = None \<and> status (md_step e sys g n s) = CL_SUCCESS"
    using md_step_ok [of e n s sys g] assms Cons.prems by (simp add: all_succeed_def)
  then show ?case using Cons.IH by simp
qed

lemma md_loop_ok:
  assumes "all_succeed e" "nprint sys \<noteq> 0" "halted s = None" "status s = CL_SUCCESS"
  shows "halted (md_loop e sys g m s) = None" "status (md_loop e sys g m s) = CL_SUCCESS"
  using steps_ok [OF assms] by (simp_all add: md_loop_def)

lemma smod_nonneg: "0 \<le> k \<Longrightarrow> 0 < l \<Longrightarrow> k smod l = k mod (l::int)"
  by (cases "k = 0") (simp_all add: signed_modulo_int_def)

lemma before_boundary:
  assumes "1 \<le> n" "0 < l" "n smod l = (0::int)"
  shows "(n - 1) smod l = l - 1"
proof -
  have "n mod l = 0" using assms by (simp add: smod_nonneg)
  then obtain q where q: "n = l * q" by auto
  have "(n - 1) mod l = (l - 1 + l * (q - 1)) mod l"
    by (simp add: q algebra_simps)
  also have "\<dots> = (l - 1) mod l" by (simp only: mod_mult_self2)
  also have "\<dots> = l - 1" using assms by (intro mod_pos_pos_trivial) simp_all
  finally show ?thesis using assms by (simp add: smod_nonneg)
qed

lemma report_cong:
  assumes "\<And>i. i < nat (natoms sys) \<Longrightarrow> x i = x' i \<and> y i = y' i \<and> z i = z' i"
    and "\<And>i. i < g \<Longrightarrow> ep i = ep' i \<and> ek i = ek' i"
  shows "report sys g n x y z ep ek = report sys g n x' y' z' ep' ek'"
  using assms by (simp add: report_def)

subsection \<open>The data of an output record\<close>

lemma report_copy_n:
  "report sys g n (copy_n (nat (natoms sys)) x x') (copy_n (nat (natoms sys)) y y')
     (copy_n (nat (natoms sys)) z z') (copy_n g ep ep') (copy_n g ek ek') =
   report sys g n x y z ep ek"
  by (rule report_cong) (simp_all add: copy_n_def)

lemma outputs_same_step:
  assumes ok: "all_succeed e" and s0: "halted s0 = None" "status s0 = CL_SUCCESS"
    and np: "nprint sys = 1" and n: "1 \<le> n"
  shows "outputs (trace (md_loop e sys g n s0)) =
     outputs (trace (md_loop e sys g (n - 1) s0)) @ [downloaded_in e sys g s0 n n]"
proof -
  define q where "q = md_loop e sys g (n - 1) s0"
  have q: "halted q = None" "status q = CL_SUCCESS"
    using md_loop_ok [OF ok _ s0, of sys g "n - 1"] np by (simp_all add: q_def)
  have calls: "\<And>l. call_status e l n = CL_SUCCESS"
    using ok by (simp add: all_succeed_def)
  have rb: "n smod nprint sys = nprint sys - 1" "n smod nprint sys = 0" "nprint sys \<noteq> 0"
    by (simp_all add: np signed_modulo_int_def)
  have step: "md_loop e sys g n s0 = md_step e sys g n q"
    using n by (simp add: md_loop_step q_def)
  show ?thesis
    unfolding step
    using md_step_readback(4-9) [OF calls q rb(3) rb(1), of g] rb(2)
    by (simp add: report_copy_n downloaded_in_def after_verlet_first_def after_force_def
          after_ekin_def q_def)
qed

lemma outputs_previous_step:
  assumes ok: "all_succeed e" and s0: "halted s0 = None" "status s0 = CL_SUCCESS"
    and np: "2 \<le> nprint sys" and n: "1 \<le> n" and b: "n smod nprint sys = 0"
  shows "outputs (trace (md_loop e sys g n s0)) =
     outputs (trace (md_loop e sys g (n - 1) s0)) @ [downloaded_in e sys g s0 (n - 1) n]"
proof -
  define p where "p = md_loop e sys g (n - 1 - 1) s0"
  define q where "q = md_loop e sys g (n - 1) s0"
  have np0: "nprint sys \<noteq> 0" using np by simp
  have p: "halted p = None" "status p = CL_SUCCESS"
    using md_loop_ok [OF ok np0 s0, of g "n - 1 - 1"] by (simp_all add: p_def)
  have q: "halted q = None" "status q = CL_SUCCESS"
    using md_loop_ok [OF ok np0 s0, of g "n - 1"] by (simp_all add: q_def)
  have calls: "\<And>l m. call_status e l m = CL_SUCCESS"
    using ok by (simp add: all_succeed_def)
  have "n mod nprint sys = 0" using b n np by (simp add: smod_nonneg)
  then have "nprint sys dvd n" by auto
  then have "nprint sys \<le> n" using n by (intro zdvd_imp_le) simp_all
  then have n2: "1 \<le> n - 1" using np by simp
  have rb: "(n - 1) smod nprint sys = nprint sys - 1"
    using before_boundary [of n "nprint sys"] n np b by simp
  have nrb: "n smod nprint sys \<noteq> nprint sys - 1" using b np by simp
  have stepq: "q = md_step e sys g (n - 1) p"
    using n2 by (simp add: md_loop_step [of "n - 1"] q_def p_def)
  have step: "md_loop e sys g n s0 = md_step e sys g n q"
    using n by (simp add: md_loop_step q_def)
  have out: "outputs (trace (md_step e sys g n q)) = outputs (trace q) @
      [report sys g n (buffers0 q) (buffers1 q) (buffers2 q) (tmp_epot q) (tmp_ekin q)]"
    using md_step_plain(9) [OF calls q np0 nrb, of g] b by simp
  have fields:
    "buffers0 q = copy_n (nat (natoms sys)) (cl_rx (after_verlet_first e sys g s0 (n - 1))) (buffers0 p)"
    "buffers1 q = copy_n (nat (natoms sys)) (cl_ry (after_verlet_first e sys g s0 (n - 1))) (buffers1 p)"
    "buffers2 q = copy_n (nat (natoms sys)) (cl_rz (after_verlet_first e sys g s0 (n - 1))) (buffers2 p)"
    "tmp_epot q = copy_n g (epot_buffer (after_force e sys g s0 (n - 1))) (tmp_epot p)"
    "tmp_ekin q = copy_n g (ekin_buffer (after_ekin e sys g s0 (n - 1))) (tmp_ekin p)"
    using md_step_readback(4-8) [OF calls p np0 rb, of g]
    by (simp_all add: stepq after_verlet_first_def after_force_def after_ekin_def p_def)
  have rep: "report sys g n (buffers0 q) (buffers1 q) (buffers2 q) (tmp_epot q) (tmp_ekin q) =
      downloaded_in e sys g s0 (n - 1) n"
    by (simp only: fields report_copy_n downloaded_in_def)
  show ?thesis
    by (simp only: step out rep q_def [symmetric])
qed

subsection \<open>The example environment\<close>

lemma all_succeed_loop_env: "all_succeed loop_env"
  by (simp add: all_succeed_def loop_env_def example_env_def ok_status_def)

lemma initial_state_ok:
  "halted (initial_state e) = None" "status (initial_state e) = CL_SUCCESS"
  "dev (initial_state e) = fresh_device e"
  by (simp_all add: initial_state_def)

lemma example_sys_fields:
  "natoms (example_sys ns np) = 2" "mass (example_sys ns np) = 1"
  "nsteps (example_sys ns np) = ns" "nprint (example_sys ns np) = np"
  by (simp_all add: example_sys_def)

lemma example_kernel_rx:
  "cl_rx (example_kernel k g d) i = cl_rx d i + (if k = opencl_verlet_first then 1 else 0)"
  by (cases k) (simp_all add: example_kernel_def)

lemma run_kernel_loop_env: "run_kernel loop_env = example_kernel"
  by (simp add: loop_env_def example_env_def)

lemma positions_step_1:
  "cl_rx (after_verlet_first loop_env (example_sys 2 1) 2 (initial_state loop_env) 1) 0 = 1"
  by (simp add: after_verlet_first_def md_loop_nonpos initial_state_ok run_kernel_loop_env
        example_kernel_rx loop_env_def example_env_def zero_device_def)

lemma positions_step_2:
  "cl_rx (after_verlet_first loop_env (example_sys 2 1) 2 (initial_state loop_env) 2) 0 = 2"
proof -
  have calls: "\<And>l. call_status loop_env l 1 = CL_SUCCESS"
    using all_succeed_loop_env by (simp add: all_succeed_def)
  have "md_loop loop_env (example_sys 2 1) 2 1 (initial_state loop_env) =
      md_step loop_env (example_sys 2 1) 2 1 (initial_state loop_env)"
    by (simp add: md_loop_step md_loop_nonpos)
  then show ?thesis
    using md_step_readback(3) [OF calls initial_state_ok(1,2), of "example_sys 2 1" 2]
    by (simp add: after_verlet_first_def run_kernel_loop_env example_kernel_rx
          initial_state_ok example_sys_def signed_modulo_int_def)
      (simp add: loop_env_def example_env_def zero_device_def)
qed

lemma md_step_outputs_prefix:
  assumes "\<And>l. call_status e l n = CL_SUCCESS" "halted s = None" "status s = CL_SUCCESS"
    "nprint sys \<noteq> 0"
  shows "prefix (outputs (trace s)) (outputs (trace (md_step e sys g n s)))"
  using md_step_readback(9) [of e n s sys g] md_step_plain(9) [of e n s sys g] assms
  by (cases "n smod nprint sys = nprint sys - 1") (simp_all add: prefix_def)

lemma md_loop_outputs_prefix:
  assumes ok: "all_succeed e" and np: "nprint sys \<noteq> 0"
    and s0: "halted s0 = None" "status s0 = CL_SUCCESS" and nm: "n \<le> m"
  shows "prefix (outputs (trace (md_loop e sys g n s0))) (outputs (trace (md_loop e sys g m s0)))"
  using nm
proof (induction m rule: int_ge_induct)
  case base
  show ?case by simp
next
  case (step i)
  show ?case
  proof (cases "1 \<le> i + 1")
    case True
    have calls: "\<And>l. call_status e l (i + 1) = CL_SUCCESS"
      using ok by (simp add: all_succeed_def)
    have "prefix (outputs (trace (md_loop e sys g i s0)))
        (outputs (trace (md_step e sys g (i + 1) (md_loop e sys g i s0))))"
      using md_step_outputs_prefix [OF calls md_loop_ok [OF ok np s0] np] .
    then show ?thesis
      using step.IH True by (simp add: md_loop_step [of "i + 1"])
  next
    case False
    then show ?thesis using step.hyps by (simp add: md_loop_nonpos)
  qed
qed

text \<open>
  C7 (in every iteration the dispatch order is first half-step, force, second half-step).
  The kernels an iteration dispatches are a prefix of: first half-step, force, second
  half-step, kinetic energy; an iteration that is not aborted at a checkpoint dispatches
  the first three in this order, and the kinetic-energy kernel after them on a read-back
  step. So the force evaluation comes after the first half-step (the position update)
  and before the second.
\<close>

theorem md_step_dispatch_order:
  assumes "halted s = None"
  shows "\<exists>ks. kernels_dispatched (trace (md_step e sys g n s)) = kernels_dispatched (trace s) @ ks
     \<and> prefix ks [opencl_verlet_first, opencl_force, opencl_verlet_second, opencl_ekin]
     \<and> (halted (md_step e sys g n s) = None \<longrightarrow>
          ks = [opencl_verlet_first, opencl_force, opencl_verlet_second] @
               (if n smod nprint sys = nprint sys - 1 then [opencl_ekin] else []))"
proof -
  have "\<exists>ps. dispatches (trace (md_step e sys g n s)) = dispatches (trace s) @ ps
     \<and> prefix ps [(opencl_verlet_first, g), (opencl_force, g), (opencl_verlet_second, g),
          (opencl_ekin, g)]
     \<and> (halted (md_step e sys g n s) = None \<longrightarrow>
          ps = [(opencl_verlet_first, g), (opencl_force, g), (opencl_verlet_second, g)] @
               (if n smod nprint sys = nprint sys - 1 then [(opencl_ekin, g)] else []))"
    by (rule md_step_dispatches [OF assms])
  then show ?thesis
  proof (elim exE conjE)
    fix ps
    assume eq: "dispatches (trace (md_step e sys g n s)) = dispatches (trace s) @ ps"
      and pre: "prefix ps [(opencl_verlet_first, g), (opencl_force, g),
          (opencl_verlet_second, g), (opencl_ekin, g)]"
      and full: "halted (md_step e sys g n s) = None \<longrightarrow>
          ps = [(opencl_verlet_first, g), (opencl_force, g), (opencl_verlet_second, g)] @
               (if n smod nprint sys = nprint sys - 1 then [(opencl_ekin, g)] else [])"
    have "prefix (map fst ps) (map fst [(opencl_verlet_first, g), (opencl_force, g),
        (opencl_verlet_second, g), (opencl_ekin, g)])"
      using pre by (rule map_mono_prefix)
    then have pre': "prefix (map fst ps)
        [opencl_verlet_first, opencl_force, opencl_verlet_second, opencl_ekin]"
      by simp
    show ?thesis
    proof (intro exI conjI impI)
      show "kernels_dispatched (trace (md_step e sys g n s)) =
          kernels_dispatched (trace s) @ map fst ps"
        by (simp add: kernels_dispatched_def eq)
      show "prefix (map fst ps)
          [opencl_verlet_first, opencl_force, opencl_verlet_second, opencl_ekin]"
        by (rule pre')
      assume "halted (md_step e sys g n s) = None"
      with full have "ps = [(opencl_verlet_first, g), (opencl_force, g), (opencl_verlet_second, g)] @
          (if n smod nprint sys = nprint sys - 1 then [(opencl_ekin, g)] else [])"
        by (rule mp)
      then show "map fst ps = [opencl_verlet_first, opencl_force, opencl_verlet_second] @
          (if n smod nprint sys = nprint sys - 1 then [opencl_ekin] else [])"
        by simp
    qed
  qed
qed

theorem md_step_dispatch_order_witness:
  "halted (initial_state loop_env) = None
   \<and> halted (md_step loop_env (example_sys 2 2) 2 1 (initial_state loop_env)) = None
   \<and> kernels_dispatched (trace (md_step loop_env (example_sys 2 2) 2 1 (initial_state loop_env))) =
       [opencl_verlet_first, opencl_force, opencl_verlet_second, opencl_ekin]"
proof -
  have calls: "\<And>l. call_status loop_env l 1 = CL_SUCCESS"
    using all_succeed_loop_env by (simp add: all_succeed_def)
  have h: "halted (md_step loop_env (example_sys 2 2) 2 1 (initial_state loop_env)) = None"
    using md_step_ok [OF calls initial_state_ok(1,2), of "example_sys 2 2" 2]
    by (simp add: example_sys_fields)
  have t: "kernels_dispatched (trace (initial_state loop_env)) = []"
    by (simp add: initial_state_def kernels_dispatched_def)
  have rb: "(1::int) smod nprint (example_sys 2 2) = nprint (example_sys 2 2) - 1"
    by (simp add: example_sys_fields signed_modulo_int_def)
  have "\<exists>ks. kernels_dispatched
        (trace (md_step loop_env (example_sys 2 2) 2 1 (initial_state loop_env))) =
       kernels_dispatched (trace (initial_state loop_env)) @ ks
     \<and> prefix ks [opencl_verlet_first, opencl_force, opencl_verlet_second, opencl_ekin]
     \<and> (halted (md_step loop_env (example_sys 2 2) 2 1 (initial_state loop_env)) = None \<longrightarrow>
          ks = [opencl_verlet_first, opencl_force, opencl_verlet_second] @
               (if 1 smod nprint (example_sys 2 2) = nprint (example_sys 2 2) - 1
                then [opencl_ekin] else []))"
    by (rule md_step_dispatch_order [OF initial_state_ok(1)])
  then show ?thesis
  proof (elim exE conjE)
    fix ks
    assume eq: "kernels_dispatched
        (trace (md_step loop_env (example_sys 2 2) 2 1 (initial_state loop_env))) =
       kernels_dispatched (trace (initial_state loop_env)) @ ks"
      and full: "halted (md_step loop_env (example_sys 2 2) 2 1 (initial_state loop_env)) = None \<longrightarrow>
          ks = [opencl_verlet_first, opencl_force, opencl_verlet_second] @
               (if 1 smod nprint (example_sys 2 2) = nprint (example_sys 2 2) - 1
                then [opencl_ekin] else [])"
    from full h have "ks = [opencl_verlet_first, opencl_force, opencl_verlet_second] @
               (if 1 smod nprint (example_sys 2 2) = nprint (example_sys 2 2) - 1
                then [opencl_ekin] else [])"
      by (rule mp)
    then have "ks = [opencl_verlet_first, opencl_force, opencl_verlet_second, opencl_ekin]"
      using rb by simp
    then show ?thesis
      using eq h t initial_state_ok(1) [of loop_env] by simp
  qed
qed

text \<open>
  C2, amended (print interval at least 2). In a run whose device calls all succeed, the
  record written at a print boundary \<open>n\<close> (\<open>n mod nprint = 0\<close>, \<open>1 \<le> n \<le> nsteps\<close>) is
  built from what iteration \<open>n - 1\<close> downloaded: the positions after its first half-step,
  the potential-energy partials after its force evaluation, the kinetic-energy partials
  after its second half-step. The record stays in the output of the whole run. The loop
  starts in any state \<open>s0\<close> that has not stopped and has the status \<^verbatim>\<open>CL_SUCCESS\<close>.
\<close>

theorem output_uses_previous_step:
  assumes "all_succeed e" and "halted s0 = None" and "status s0 = CL_SUCCESS"
    and "2 \<le> nprint sys" and "1 \<le> n" and "n \<le> nsteps sys" and "n smod nprint sys = 0"
  shows "outputs (trace (md_loop e sys g n s0)) =
       outputs (trace (md_loop e sys g (n - 1) s0)) @ [downloaded_in e sys g s0 (n - 1) n]
     \<and> prefix (outputs (trace (md_loop e sys g n s0)))
         (outputs (trace (md_loop e sys g (nsteps sys) s0)))"
  using outputs_previous_step [of e s0 sys n g] md_loop_outputs_prefix [of e sys s0 n "nsteps sys" g]
    assms by simp

theorem output_uses_previous_step_witness:
  "all_succeed loop_env \<and> halted (initial_state loop_env) = None
   \<and> status (initial_state loop_env) = CL_SUCCESS
   \<and> 2 \<le> nprint (example_sys 2 2) \<and> (1::int) \<le> 2 \<and> 2 \<le> nsteps (example_sys 2 2)
   \<and> 2 smod nprint (example_sys 2 2) = 0
   \<and> outputs (trace (md_loop loop_env (example_sys 2 2) 2 2 (initial_state loop_env))) =
       outputs (trace (md_loop loop_env (example_sys 2 2) 2 (2 - 1) (initial_state loop_env))) @
         [downloaded_in loop_env (example_sys 2 2) 2 (initial_state loop_env) (2 - 1) 2]"
proof -
  have a: "2 \<le> nprint (example_sys 2 2)" "(1::int) \<le> 2" "2 \<le> nsteps (example_sys 2 2)"
    "2 smod nprint (example_sys 2 2) = 0"
    by (simp_all add: example_sys_fields signed_modulo_int_def)
  show ?thesis
    using output_uses_previous_step [OF all_succeed_loop_env initial_state_ok(1,2) a, of 2]
      all_succeed_loop_env initial_state_ok(1,2) [of loop_env] a
    by simp
qed

text \<open>
  C2 as stated fails for the print interval 1: there every step is a print boundary and a
  read-back step at once, and the record of step 2 holds the positions after the first
  half-step of step 2, not those downloaded in step 1.
\<close>

theorem output_uses_previous_step_counterexample:
  "all_succeed loop_env \<and> nprint (example_sys 2 1) = 1 \<and> 2 smod nprint (example_sys 2 1) = 0
   \<and> 2 \<le> nsteps (example_sys 2 1)
   \<and> outputs (trace (md_loop loop_env (example_sys 2 1) 2 2 (initial_state loop_env))) \<noteq>
     outputs (trace (md_loop loop_env (example_sys 2 1) 2 1 (initial_state loop_env))) @
       [downloaded_in loop_env (example_sys 2 1) 2 (initial_state loop_env) 1 2]"
proof -
  have "outputs (trace (md_loop loop_env (example_sys 2 1) 2 2 (initial_state loop_env))) =
     outputs (trace (md_loop loop_env (example_sys 2 1) 2 (2 - 1) (initial_state loop_env))) @
       [downloaded_in loop_env (example_sys 2 1) 2 (initial_state loop_env) 2 2]"
    by (rule outputs_same_step [OF all_succeed_loop_env initial_state_ok(1,2)])
       (simp_all add: example_sys_def)
  moreover have "fst (hd (o_positions
      (downloaded_in loop_env (example_sys 2 1) 2 (initial_state loop_env) 2 2))) = 2"
    by (simp add: downloaded_in_def report_def Let_def example_sys_fields upt_conv_Cons
          positions_step_2)
  moreover have "fst (hd (o_positions
      (downloaded_in loop_env (example_sys 2 1) 2 (initial_state loop_env) 1 2))) = 1"
    by (simp add: downloaded_in_def report_def Let_def example_sys_fields upt_conv_Cons
          positions_step_1)
  ultimately show ?thesis
    using all_succeed_loop_env by (auto simp: example_sys_fields signed_modulo_int_def)
qed

text \<open>
  C9 (print interval 1). The read-back test and the output test are the same test, and
  the record written at step \<open>n\<close> is built from what step \<open>n\<close> itself downloaded: the
  positions after its first half-step, the potential-energy partials after its force
  evaluation and the kinetic-energy partials after its second half-step.
\<close>

theorem output_uses_same_step_when_nprint_1:
  assumes "all_succeed e" and "halted s0 = None" and "status s0 = CL_SUCCESS"
    and "nprint sys = 1" and "1 \<le> n" and "n \<le> nsteps sys"
  shows "(\<forall>k. (k smod nprint sys = nprint sys - 1) = (k smod nprint sys = 0))
     \<and> outputs (trace (md_loop e sys g n s0)) =
         outputs (trace (md_loop e sys g (n - 1) s0)) @ [downloaded_in e sys g s0 n n]
     \<and> prefix (outputs (trace (md_loop e sys g n s0)))
         (outputs (trace (md_loop e sys g (nsteps sys) s0)))"
  using outputs_same_step [of e s0 sys n g] md_loop_outputs_prefix [of e sys s0 n "nsteps sys" g]
    assms by simp

theorem output_uses_same_step_when_nprint_1_witness:
  "all_succeed loop_env \<and> halted (initial_state loop_env) = None
   \<and> status (initial_state loop_env) = CL_SUCCESS
   \<and> nprint (example_sys 2 1) = 1 \<and> (1::int) \<le> 2 \<and> 2 \<le> nsteps (example_sys 2 1)
   \<and> outputs (trace (md_loop loop_env (example_sys 2 1) 2 2 (initial_state loop_env))) =
       outputs (trace (md_loop loop_env (example_sys 2 1) 2 (2 - 1) (initial_state loop_env))) @
         [downloaded_in loop_env (example_sys 2 1) 2 (initial_state loop_env) 2 2]"
proof -
  have a: "nprint (example_sys 2 1) = 1" "(1::int) \<le> 2" "2 \<le> nsteps (example_sys 2 1)"
    by (simp_all add: example_sys_fields)
  show ?thesis
    using output_uses_same_step_when_nprint_1 [OF all_succeed_loop_env initial_state_ok(1,2) a, of 2]
      all_succeed_loop_env initial_state_ok(1,2) [of loop_env] a
    by simp
qed

subsection \<open>Before the loop\<close>

lemma finalize_ekin_facts [simp]:
  "halted (finalize_ekin sys s) = halted s" "trace (finalize_ekin sys s) = trace s"
  "status (finalize_ekin sys s) = status s" "sys_nfi (finalize_ekin sys s) = sys_nfi s"
  by (simp_all add: finalize_ekin_def Let_def)

lemma output_data_facts [simp]:
  "halted (output_data sys s) = halted s"
  "dispatches (trace (output_data sys s)) = dispatches (trace s)"
  "status (output_data sys s) = status s" "sys_nfi (output_data sys s) = sys_nfi s"
  by (simp_all add: output_data_def)

lemma dispatches_guarded:
  "(\<And>t. dispatches (trace (f t)) = dispatches (trace t)) \<Longrightarrow>
   dispatches (trace (guarded f s)) = dispatches (trace s)"
  by (simp add: guarded_def)

lemma status_guarded: "(\<And>t. status (f t) = status t) \<Longrightarrow> status (guarded f s) = status s"
  by (simp add: guarded_def)

lemmas run_simps = field_simps_calls halted_guarded sys_nfi_guarded dispatches_guarded
  status_guarded

lemma allocate_run:
  assumes "halted s = None"
  shows "halted (allocate e s) = None" "dispatches (trace (allocate e s)) = dispatches (trace s)"
  using assms by (simp_all add: allocate_def run_all_def call_defs run_simps)

lemma read_restart_facts [simp]:
  "halted (read_restart sys fl s) = halted s"
  "trace (read_restart sys fl s) = trace s"
  by (cases fl; simp add: read_restart_def)+

lemma upload_restart_run:
  assumes "halted s = None"
  shows "halted (upload_restart e sys s) = None"
    "dispatches (trace (upload_restart e sys s)) = dispatches (trace s)"
  using assms by (simp_all add: upload_restart_def run_all_def call_defs run_simps Let_def)

lemma build_kernels_run:
  assumes "halted s = None"
  shows "halted (build_kernels e s) = None"
    "dispatches (trace (build_kernels e s)) = dispatches (trace s)"
    "sys_nfi (build_kernels e s) = 0"
  using assms
  by (simp_all add: build_kernels_def run_all_def call_defs field_simps_calls halted_guarded
        trace_guarded guarded_def)

lemma initial_forces_energies_run:
  assumes "halted s = None"
  shows "halted (initial_forces_energies e sys g s) = None"
    "sys_nfi (initial_forces_energies e sys g s) = sys_nfi s"
    "dispatches (trace (initial_forces_energies e sys g s)) =
       dispatches (trace s) @ [(opencl_azzero, g), (opencl_force, g), (opencl_ekin, g)]"
    "status (initial_forces_energies e sys g s) =
       (call_status e 327 (sys_nfi s) OR call_status e 328 (sys_nfi s)) OR
       call_status e 329 (sys_nfi s)"
  using assms
  by (simp_all add: initial_forces_energies_def run_all_def call_defs run_simps)

lemma loop_entry_facts:
  "halted (loop_entry e sys g fl) = None"
  "sys_nfi (loop_entry e sys g fl) = 0"
  "dispatches (trace (loop_entry e sys g fl)) =
     [(opencl_azzero, g), (opencl_force, g), (opencl_ekin, g)]"
  "status (loop_entry e sys g fl) =
     (call_status e 327 0 OR call_status e 328 0) OR call_status e 329 0"
proof -
  define s1 where "s1 = allocate e (initial_state e)"
  define s2 where "s2 = upload_restart e sys (read_restart sys fl s1)"
  define s3 where "s3 = build_kernels e s2"
  have h1: "halted s1 = None" and d1: "dispatches (trace s1) = []"
    using allocate_run [of "initial_state e" e] by (simp_all add: s1_def initial_state_def)
  have h2: "halted s2 = None" and d2: "dispatches (trace s2) = []"
    using upload_restart_run [of "read_restart sys fl s1" e sys] h1 d1 by (simp_all add: s2_def)
  have h3: "halted s3 = None" and d3: "dispatches (trace s3) = []" and n3: "sys_nfi s3 = 0"
    using build_kernels_run [of s2 e] h2 d2 by (simp_all add: s3_def)
  have le: "loop_entry e sys g fl = initial_forces_energies e sys g s3"
    by (simp add: loop_entry_def s1_def s2_def s3_def)
  show "halted (loop_entry e sys g fl) = None"
    "sys_nfi (loop_entry e sys g fl) = 0"
    "dispatches (trace (loop_entry e sys g fl)) =
       [(opencl_azzero, g), (opencl_force, g), (opencl_ekin, g)]"
    "status (loop_entry e sys g fl) =
       (call_status e 327 0 OR call_status e 328 0) OR call_status e 329 0"
    using initial_forces_energies_run [OF h3, of e sys g] d3 n3 by (simp_all add: le)
qed

text \<open>With a device on which every call succeeds, \<^verbatim>\<open>main\<close> enters the loop in a state
  that has not stopped and has the status \<^verbatim>\<open>CL_SUCCESS\<close>: the state the theorems on the loop
  start from.\<close>

lemma loop_entry_ok:
  assumes "all_succeed e"
  shows "halted (loop_entry e sys g fl) = None \<and> status (loop_entry e sys g fl) = CL_SUCCESS"
  using assms by (simp add: loop_entry_facts all_succeed_def CL_SUCCESS_def)

lemma main_run:
  assumes "handle_args (argv e) = Inr t" "InitOpenCLEnvironment e (argv e ! 1) = CL_SUCCESS"
    "read_input (atof e) (stdin e) = Inr sys" "fopen_restart e (restfile sys) = Some fl"
  shows "main e = finish (md_loop e sys (nat t) (nsteps sys) (loop_entry e sys (nat t) fl))"
  using assms by (simp add: main_def loop_entry_def Let_def)

lemma finish_facts:
  "trace (finish s) = trace s"
  "halted (finish s) = (if halted s = None then Some (Return 0) else halted s)"
  by (simp_all add: finish_def)

lemma md_step_adds:
  "\<exists>ks. dispatches (trace (md_step e sys g n s)) = dispatches (trace s) @ ks
     \<and> set ks \<subseteq> {opencl_verlet_first, opencl_force, opencl_verlet_second, opencl_ekin} \<times> {g}"
proof (cases "halted s = None")
  case True
  have "\<exists>ks. dispatches (trace (md_step e sys g n s)) = dispatches (trace s) @ ks
     \<and> prefix ks [(opencl_verlet_first, g), (opencl_force, g), (opencl_verlet_second, g),
          (opencl_ekin, g)]
     \<and> (halted (md_step e sys g n s) = None \<longrightarrow>
          ks = [(opencl_verlet_first, g), (opencl_force, g), (opencl_verlet_second, g)] @
               (if n smod nprint sys = nprint sys - 1 then [(opencl_ekin, g)] else []))"
    by (rule md_step_dispatches [OF True])
  then show ?thesis
  proof (elim exE conjE)
    fix ks
    assume eq: "dispatches (trace (md_step e sys g n s)) = dispatches (trace s) @ ks"
      and pre: "prefix ks [(opencl_verlet_first, g), (opencl_force, g),
          (opencl_verlet_second, g), (opencl_ekin, g)]"
    have "set ks \<subseteq> set [(opencl_verlet_first, g), (opencl_force, g),
          (opencl_verlet_second, g), (opencl_ekin, g)]"
      using pre by (rule set_mono_prefix)
    then have "set ks \<subseteq>
        {opencl_verlet_first, opencl_force, opencl_verlet_second, opencl_ekin} \<times> {g}"
      by auto
    with eq show ?thesis by blast
  qed
next
  case False
  then have "md_step e sys g n s = s" by (rule md_step_halted)
  then show ?thesis by simp
qed

lemma steps_add:
  "\<exists>ks. dispatches (trace (foldl (\<lambda>s n. md_step e sys g n s) s ns)) = dispatches (trace s) @ ks
     \<and> set ks \<subseteq> {opencl_verlet_first, opencl_force, opencl_verlet_second, opencl_ekin} \<times> {g}"
proof (induction ns arbitrary: s)
  case Nil
  show ?case by simp
next
  case (Cons n ns)
  obtain ks where ks: "dispatches (trace (md_step e sys g n s)) = dispatches (trace s) @ ks"
    "set ks \<subseteq> {opencl_verlet_first, opencl_force, opencl_verlet_second, opencl_ekin} \<times> {g}"
    using md_step_adds [of e sys g n s] by (elim exE conjE)
  obtain ks' where ks': "dispatches (trace (foldl (\<lambda>s n. md_step e sys g n s)
        (md_step e sys g n s) ns)) = dispatches (trace (md_step e sys g n s)) @ ks'"
    "set ks' \<subseteq> {opencl_verlet_first, opencl_force, opencl_verlet_second, opencl_ekin} \<times> {g}"
    using Cons.IH [of "md_step e sys g n s"] by (elim exE conjE)
  have "dispatches (trace (foldl (\<lambda>s n. md_step e sys g n s) s (n # ns))) =
      dispatches (trace s) @ (ks @ ks')"
    by (simp add: ks(1) ks'(1))
  moreover have "set (ks @ ks') \<subseteq>
      {opencl_verlet_first, opencl_force, opencl_verlet_second, opencl_ekin} \<times> {g}"
    using ks(2) ks'(2) by simp
  ultimately show ?case by (intro exI conjI)
qed

lemma md_loop_adds:
  "\<exists>ks. dispatches (trace (md_loop e sys g m s)) = dispatches (trace s) @ ks
     \<and> set ks \<subseteq> {opencl_verlet_first, opencl_force, opencl_verlet_second, opencl_ekin} \<times> {g}"
  unfolding md_loop_def by (rule steps_add)

subsection \<open>Outcomes of the loop\<close>

lemma usage_only_from_arguments_blocks:
  "halted (verlet_first e g s) = Some PrintUsageAndExit \<Longrightarrow> halted s = Some PrintUsageAndExit"
  "halted (download_positions e sys s) = Some PrintUsageAndExit \<Longrightarrow> halted s = Some PrintUsageAndExit"
  "halted (force e g s) = Some PrintUsageAndExit \<Longrightarrow> halted s = Some PrintUsageAndExit"
  "halted (download_epot e sys g s) = Some PrintUsageAndExit \<Longrightarrow> halted s = Some PrintUsageAndExit"
  "halted (verlet_second e g s) = Some PrintUsageAndExit \<Longrightarrow> halted s = Some PrintUsageAndExit"
  "halted (ekin_and_download e sys g s) = Some PrintUsageAndExit \<Longrightarrow> halted s = Some PrintUsageAndExit"
  "halted (write_output sys g s) = Some PrintUsageAndExit \<Longrightarrow> halted s = Some PrintUsageAndExit"
  by (simp_all add: verlet_first_def download_positions_def force_def download_epot_def
        verlet_second_def ekin_and_download_def write_output_def if_nfi_mod_def run_all_def
        call_defs field_simps_calls halted_guarded split: if_splits)

lemma usage_only_from_arguments_step:
  assumes "halted (md_step e sys g n s) = Some PrintUsageAndExit"
  shows "halted s = Some PrintUsageAndExit"
proof -
  have "halted (guarded (\<lambda>s. s\<lparr>sys_nfi := n\<rparr>) s) = Some PrintUsageAndExit"
    using assms unfolding md_step_unfold
    by (blast dest: usage_only_from_arguments_blocks)
  then show ?thesis by (simp add: halted_guarded)
qed

lemma usage_only_from_arguments_steps:
  "halted (foldl (\<lambda>s n. md_step e sys g n s) s ns) = Some PrintUsageAndExit \<Longrightarrow>
   halted s = Some PrintUsageAndExit"
proof (induction ns arbitrary: s)
  case Nil
  then show ?case by simp
next
  case (Cons n ns)
  then have "halted (md_step e sys g n s) = Some PrintUsageAndExit" by simp
  then show ?case by (rule usage_only_from_arguments_step)
qed

subsection \<open>The thread count\<close>

lemma digits_no_digit: "s = [] \<or> \<not> isdigit (hd s) \<Longrightarrow> digits s a = a"
  by (cases s) auto

lemma strtol_no_leading_digits:
  assumes "no_leading_digits s"
  shows "strtol s = 0"
proof -
  define s1 where "s1 = dropWhile isspace s"
  define s2 where
    "s2 = (if s1 \<noteq> [] \<and> (hd s1 = CHR ''-'' \<or> hd s1 = CHR ''+'') then tl s1 else s1)"
  have "s2 = [] \<or> \<not> isdigit (hd s2)"
    using assms unfolding no_leading_digits_def Let_def s1_def s2_def .
  then have d: "digits s2 0 = 0" by (rule digits_no_digit)
  have "strtol s = max LONG_MIN (min LONG_MAX
      (if s1 \<noteq> [] \<and> hd s1 = CHR ''-'' then - digits s2 0 else digits s2 0))"
    unfolding strtol_def Let_def s1_def s2_def ..
  then show ?thesis by (simp add: d LONG_MIN_def LONG_MAX_def)
qed

lemma strtol_zero: "strtol ''0'' = 0"
  by code_simp

lemma int_of_long_0: "int_of_long 0 = 0"
  by (simp add: int_of_long_def)

lemma handle_args_zero:
  assumes "s = ''0'' \<or> no_leading_digits s"
  shows "handle_args [p, d, s] = Inr 0"
  using assms strtol_no_leading_digits [of s]
  by (auto simp: handle_args_def strtol_zero int_of_long_0)

lemma get_lines_Inl:
  "get_lines k fp = Inl out \<Longrightarrow> out = Return 1 \<or> out = UndefinedBehaviour"
  by (induction k arbitrary: fp) (auto split: line_result.splits sum.splits)

lemma read_input_Inl:
  "read_input af fp = Inl out \<Longrightarrow> out = Return 1 \<or> out = UndefinedBehaviour"
  using get_lines_Inl [of 12 fp out] by (auto simp: read_input_def split: sum.splits)

lemma stopped_facts: "trace (stopped e out) = []" "halted (stopped e out) = Some out"
  by (simp_all add: stopped_def initial_state_def)

lemma main_after_arguments:
  assumes args: "handle_args (argv e) = Inr t"
  shows "halted (main e) \<noteq> Some PrintUsageAndExit"
    and "snd ` set (dispatches (trace (main e))) \<subseteq> {nat t}"
proof -
  show "halted (main e) \<noteq> Some PrintUsageAndExit"
  proof (cases "InitOpenCLEnvironment e (argv e ! 1) = CL_SUCCESS")
    case False
    then show ?thesis using args by (simp add: main_def stopped_facts)
  next
    case init: True
    show ?thesis
    proof (cases "read_input (atof e) (stdin e)")
      case (Inl out)
      then show ?thesis
        using args init read_input_Inl [OF Inl] by (auto simp: main_def stopped_facts)
    next
      case (Inr sys)
      show ?thesis
      proof (cases "fopen_restart e (restfile sys)")
        case None
        then show ?thesis using args init Inr by (simp add: main_def Let_def)
      next
        case (Some fl)
        have "halted (md_loop e sys (nat t) (nsteps sys) (loop_entry e sys (nat t) fl))
            \<noteq> Some PrintUsageAndExit"
          using usage_only_from_arguments_steps [of e sys "nat t" "loop_entry e sys (nat t) fl"]
            loop_entry_facts(1) [of e sys "nat t" fl]
          by (auto simp: md_loop_def)
        then show ?thesis
          by (simp add: main_run [OF args init Inr Some] finish_facts)
      qed
    qed
  qed
  show "snd ` set (dispatches (trace (main e))) \<subseteq> {nat t}"
  proof (cases "InitOpenCLEnvironment e (argv e ! 1) = CL_SUCCESS")
    case False
    then show ?thesis using args by (simp add: main_def stopped_facts)
  next
    case init: True
    show ?thesis
    proof (cases "read_input (atof e) (stdin e)")
      case (Inl out)
      then show ?thesis using args init by (simp add: main_def stopped_facts)
    next
      case (Inr sys)
      show ?thesis
      proof (cases "fopen_restart e (restfile sys)")
        case None
        then show ?thesis
          using args init Inr allocate_run(2) [of "initial_state e" e]
          by (simp add: main_def Let_def initial_state_def)
      next
        case (Some fl)
        obtain ks where ks: "dispatches (trace (md_loop e sys (nat t) (nsteps sys)
              (loop_entry e sys (nat t) fl))) =
            dispatches (trace (loop_entry e sys (nat t) fl)) @ ks"
          "set ks \<subseteq> {opencl_verlet_first, opencl_force, opencl_verlet_second, opencl_ekin}
              \<times> {nat t}"
          using md_loop_adds [of e sys "nat t" "nsteps sys" "loop_entry e sys (nat t) fl"]
          by (elim exE conjE)
        show ?thesis
          using ks(2)
          by (auto simp: main_run [OF args init Inr Some] finish_facts ks(1) loop_entry_facts)
      qed
    qed
  qed
qed

lemma main_dispatches:
  assumes "handle_args (argv e) = Inr t" "InitOpenCLEnvironment e (argv e ! 1) = CL_SUCCESS"
    "read_input (atof e) (stdin e) = Inr sys" "fopen_restart e (restfile sys) = Some fl"
  shows "\<exists>ks. dispatches (trace (main e)) =
       [(opencl_azzero, nat t), (opencl_force, nat t), (opencl_ekin, nat t)] @ ks
     \<and> set ks \<subseteq> {opencl_verlet_first, opencl_force, opencl_verlet_second, opencl_ekin} \<times> {nat t}"
proof -
  obtain ks where ks: "dispatches (trace (md_loop e sys (nat t) (nsteps sys)
        (loop_entry e sys (nat t) fl))) =
      dispatches (trace (loop_entry e sys (nat t) fl)) @ ks"
    "set ks \<subseteq> {opencl_verlet_first, opencl_force, opencl_verlet_second, opencl_ekin}
        \<times> {nat t}"
    using md_loop_adds [of e sys "nat t" "nsteps sys" "loop_entry e sys (nat t) fl"]
    by (elim exE conjE)
  have "dispatches (trace (main e)) =
      [(opencl_azzero, nat t), (opencl_force, nat t), (opencl_ekin, nat t)] @ ks"
    by (simp add: main_run [OF assms] finish_facts ks(1) loop_entry_facts)
  with ks(2) show ?thesis by (intro exI conjI)
qed

lemma example_input: "read_input (\<lambda>_. 1) (example_stdin ''1'' ''1'') = Inr (example_sys 1 1)"
  by code_simp

lemma example_env_fields:
  "argv (example_env args input st) = args"
  "InitOpenCLEnvironment (example_env args input st) d = CL_SUCCESS"
  "stdin (example_env args input st) = input"
  "atof (example_env args input st) = (\<lambda>_. 1)"
  "fopen_restart (example_env args input st) name = Some ((\<lambda>i. 0), (\<lambda>i. 0), (\<lambda>i. 0))"
  "call_status (example_env args input st) = st"
  "run_kernel (example_env args input st) = example_kernel"
  by (simp_all add: example_env_def)

lemma example_step_dispatches:
  "dispatches (trace (md_step loop_env (example_sys 2 2) 2 1 (initial_state loop_env))) =
     [(opencl_verlet_first, 2), (opencl_force, 2), (opencl_verlet_second, 2), (opencl_ekin, 2)]"
proof -
  have calls: "\<And>l. call_status loop_env l 1 = CL_SUCCESS"
    using all_succeed_loop_env by (simp add: all_succeed_def)
  have h: "halted (md_step loop_env (example_sys 2 2) 2 1 (initial_state loop_env)) = None"
    using md_step_ok [OF calls initial_state_ok(1,2), of "example_sys 2 2" 2]
    by (simp add: example_sys_fields)
  have "\<exists>ks. dispatches (trace (md_step loop_env (example_sys 2 2) 2 1 (initial_state loop_env))) =
       dispatches (trace (initial_state loop_env)) @ ks
     \<and> prefix ks [(opencl_verlet_first, 2), (opencl_force, 2), (opencl_verlet_second, 2),
          (opencl_ekin, 2)]
     \<and> (halted (md_step loop_env (example_sys 2 2) 2 1 (initial_state loop_env)) = None \<longrightarrow>
          ks = [(opencl_verlet_first, 2), (opencl_force, 2), (opencl_verlet_second, 2)] @
               (if 1 smod nprint (example_sys 2 2) = nprint (example_sys 2 2) - 1
                then [(opencl_ekin, 2)] else []))"
    by (rule md_step_dispatches [OF initial_state_ok(1)])
  then show ?thesis
    using h by (auto simp: initial_state_def example_sys_fields signed_modulo_int_def)
qed

text \<open>
  C1 as stated fails: an iteration of the loop dispatches the force kernel and no
  zero-fill kernel before it. Here the first iteration of a run from an empty trace
  dispatches first half-step, force, second half-step, kinetic energy.
\<close>

theorem zero_fill_each_step_counterexample:
  "trace (initial_state loop_env) = []
   \<and> \<not> zero_fill_before_force
        (kernels_dispatched (trace (md_step loop_env (example_sys 2 2) 2 1 (initial_state loop_env))))"
proof
  show "trace (initial_state loop_env) = []"
    by (simp add: initial_state_def)
  show "\<not> zero_fill_before_force
        (kernels_dispatched (trace (md_step loop_env (example_sys 2 2) 2 1 (initial_state loop_env))))"
    by (simp add: kernels_dispatched_def example_step_dispatches)
qed

lemma md_step_iteration:
  "\<exists>js. dispatches (trace (md_step e sys g n s)) = dispatches (trace s) @ js
     \<and> prefix js [(opencl_verlet_first, g), (opencl_force, g), (opencl_verlet_second, g),
          (opencl_ekin, g)]"
proof (cases "halted s = None")
  case True
  have "\<exists>ks. dispatches (trace (md_step e sys g n s)) = dispatches (trace s) @ ks
     \<and> prefix ks [(opencl_verlet_first, g), (opencl_force, g), (opencl_verlet_second, g),
          (opencl_ekin, g)]
     \<and> (halted (md_step e sys g n s) = None \<longrightarrow>
          ks = [(opencl_verlet_first, g), (opencl_force, g), (opencl_verlet_second, g)] @
               (if n smod nprint sys = nprint sys - 1 then [(opencl_ekin, g)] else []))"
    by (rule md_step_dispatches [OF True])
  then show ?thesis
  proof (elim exE conjE)
    fix ks
    assume "dispatches (trace (md_step e sys g n s)) = dispatches (trace s) @ ks"
      and "prefix ks [(opencl_verlet_first, g), (opencl_force, g),
          (opencl_verlet_second, g), (opencl_ekin, g)]"
    then show ?thesis by (intro exI conjI)
  qed
next
  case False
  then have "md_step e sys g n s = s" by (rule md_step_halted)
  then have "dispatches (trace (md_step e sys g n s)) = dispatches (trace s) @ []
     \<and> prefix [] [(opencl_verlet_first, g), (opencl_force, g), (opencl_verlet_second, g),
          (opencl_ekin, g)]"
    by simp
  then show ?thesis by (rule exI)
qed

lemma steps_iterations:
  "\<exists>pss. dispatches (trace (foldl (\<lambda>s n. md_step e sys g n s) s ns)) =
       dispatches (trace s) @ concat pss
     \<and> length pss = length ns
     \<and> (\<forall>ps\<in>set pss. prefix ps [(opencl_verlet_first, g), (opencl_force, g),
          (opencl_verlet_second, g), (opencl_ekin, g)])"
proof (induction ns arbitrary: s)
  case Nil
  have "dispatches (trace (foldl (\<lambda>s n. md_step e sys g n s) s [])) =
       dispatches (trace s) @ concat []
     \<and> length ([] :: (kernel \<times> nat) list list) = length ([] :: int list)
     \<and> (\<forall>ps\<in>set []. prefix ps [(opencl_verlet_first, g), (opencl_force, g),
          (opencl_verlet_second, g), (opencl_ekin, g)])"
    by simp
  then show ?case by (rule exI)
next
  case (Cons n ns)
  obtain js where js: "dispatches (trace (md_step e sys g n s)) = dispatches (trace s) @ js"
    "prefix js [(opencl_verlet_first, g), (opencl_force, g), (opencl_verlet_second, g),
        (opencl_ekin, g)]"
    using md_step_iteration [of e sys g n s] by (elim exE conjE)
  obtain pss where pss: "dispatches (trace (foldl (\<lambda>s n. md_step e sys g n s)
        (md_step e sys g n s) ns)) = dispatches (trace (md_step e sys g n s)) @ concat pss"
    "length pss = length ns"
    "\<forall>ps\<in>set pss. prefix ps [(opencl_verlet_first, g), (opencl_force, g),
        (opencl_verlet_second, g), (opencl_ekin, g)]"
    using Cons.IH [of "md_step e sys g n s"] by (elim exE conjE)
  have "dispatches (trace (foldl (\<lambda>s n. md_step e sys g n s) s (n # ns))) =
      dispatches (trace s) @ concat (js # pss)"
    by (simp add: js(1) pss(1))
  moreover have "length (js # pss) = length (n # ns)"
    by (simp add: pss(2))
  moreover have "\<forall>ps\<in>set (js # pss). prefix ps [(opencl_verlet_first, g), (opencl_force, g),
        (opencl_verlet_second, g), (opencl_ekin, g)]"
    using js(2) pss(3) by simp
  ultimately show ?case by (intro exI conjI)
qed

lemma main_iterations:
  assumes "handle_args (argv e) = Inr t" "InitOpenCLEnvironment e (argv e ! 1) = CL_SUCCESS"
    "read_input (atof e) (stdin e) = Inr sys" "fopen_restart e (restfile sys) = Some fl"
  shows "\<exists>pss. dispatches (trace (main e)) =
       [(opencl_azzero, nat t), (opencl_force, nat t), (opencl_ekin, nat t)] @ concat pss
     \<and> length pss = nat (nsteps sys)
     \<and> (\<forall>ps\<in>set pss. prefix ps [(opencl_verlet_first, nat t), (opencl_force, nat t),
          (opencl_verlet_second, nat t), (opencl_ekin, nat t)])"
proof -
  obtain pss where pss: "dispatches (trace (foldl (\<lambda>s n. md_step e sys (nat t) n s)
        (loop_entry e sys (nat t) fl) [1..nsteps sys])) =
      dispatches (trace (loop_entry e sys (nat t) fl)) @ concat pss"
    "length pss = length [1..nsteps sys]"
    "\<forall>ps\<in>set pss. prefix ps [(opencl_verlet_first, nat t), (opencl_force, nat t),
        (opencl_verlet_second, nat t), (opencl_ekin, nat t)]"
    using steps_iterations [of e sys "nat t" "loop_entry e sys (nat t) fl" "[1..nsteps sys]"]
    by (elim exE conjE)
  have "dispatches (trace (main e)) =
      [(opencl_azzero, nat t), (opencl_force, nat t), (opencl_ekin, nat t)] @ concat pss"
    by (simp add: main_run [OF assms] finish_facts md_loop_def pss(1) loop_entry_facts)
  moreover have "length pss = nat (nsteps sys)"
    by (simp add: pss(2))
  ultimately show ?thesis using pss(3) by (intro exI conjI)
qed

lemma main_env_run:
  "kernels_dispatched (trace (main main_env)) =
     [opencl_azzero, opencl_force, opencl_ekin,
      opencl_verlet_first, opencl_force, opencl_verlet_second, opencl_ekin]"
proof -
  define entry where "entry = loop_entry main_env (example_sys 1 1) 2 ((\<lambda>i. 0), (\<lambda>i. 0), (\<lambda>i. 0))"
  have a: "handle_args (argv main_env) = Inr 2"
    unfolding main_env_def example_env_fields by code_simp
  have b: "InitOpenCLEnvironment main_env (argv main_env ! 1) = CL_SUCCESS"
    by (simp add: main_env_def example_env_fields)
  have c: "read_input (atof main_env) (stdin main_env) = Inr (example_sys 1 1)"
    by (simp add: main_env_def example_env_fields example_input)
  have d: "fopen_restart main_env (restfile (example_sys 1 1)) =
      Some ((\<lambda>i. 0), (\<lambda>i. 0), (\<lambda>i. 0))"
    by (simp add: main_env_def example_env_fields)
  have ok: "all_succeed main_env"
    by (simp add: all_succeed_def main_env_def example_env_def ok_status_def)
  have calls: "\<And>l. call_status main_env l 1 = CL_SUCCESS"
    using ok by (simp add: all_succeed_def)
  have h0: "halted entry = None" and s0: "status entry = CL_SUCCESS"
    using loop_entry_ok [OF ok] by (simp_all add: entry_def)
  have d0: "dispatches (trace entry) = [(opencl_azzero, 2), (opencl_force, 2), (opencl_ekin, 2)]"
    by (simp add: entry_def loop_entry_facts)
  have np: "nprint (example_sys 1 1) \<noteq> 0"
    by (simp add: example_sys_def)
  have h1: "halted (md_step main_env (example_sys 1 1) 2 1 entry) = None"
    using md_step_ok [OF calls h0 s0 np] by simp
  have "\<exists>ks. dispatches (trace (md_step main_env (example_sys 1 1) 2 1 entry)) =
        dispatches (trace entry) @ ks
     \<and> prefix ks [(opencl_verlet_first, 2), (opencl_force, 2), (opencl_verlet_second, 2),
          (opencl_ekin, 2)]
     \<and> (halted (md_step main_env (example_sys 1 1) 2 1 entry) = None \<longrightarrow>
          ks = [(opencl_verlet_first, 2), (opencl_force, 2), (opencl_verlet_second, 2)] @
               (if 1 smod nprint (example_sys 1 1) = nprint (example_sys 1 1) - 1
                then [(opencl_ekin, 2)] else []))"
    by (rule md_step_dispatches [OF h0])
  then have step: "dispatches (trace (md_step main_env (example_sys 1 1) 2 1 entry)) =
      [(opencl_azzero, 2), (opencl_force, 2), (opencl_ekin, 2),
       (opencl_verlet_first, 2), (opencl_force, 2), (opencl_verlet_second, 2), (opencl_ekin, 2)]"
    using h1 d0 by (auto simp add: example_sys_def signed_modulo_int_def)
  have "md_loop main_env (example_sys 1 1) 2 1 entry =
      md_step main_env (example_sys 1 1) 2 1 entry"
    by (simp add: md_loop_step md_loop_nonpos)
  then have "main main_env = finish (md_step main_env (example_sys 1 1) 2 1 entry)"
    using main_run [OF a b c d] by (simp add: entry_def example_sys_def)
  then show ?thesis
    by (simp add: kernels_dispatched_def finish_facts step)
qed

text \<open>
  C1, amended. The zero-fill kernel is dispatched once, in the initialisation and before the
  initial force evaluation; the iterations of the loop dispatch no zero-fill kernel, and
  within an iteration the force dispatch is preceded by the first half-step dispatch only.
  For every run that gets as far as the initialisation (whatever the device calls return),
  the kernels dispatched are zero-fill, force, kinetic energy, and then, for each of the
  \<^verbatim>\<open>nsteps\<close> iterations of the loop in turn, an initial segment of the sequence first
  half-step, force, second half-step, kinetic energy (the whole sequence or the part of it
  before a stop; empty for the iterations after a stop). So every force dispatch of the loop
  is the second dispatch of its iteration, right after the first half-step, and no iteration
  dispatches the zero-fill kernel.
\<close>

theorem zero_fill_only_at_initialisation:
  assumes "handle_args (argv e) = Inr t" and "InitOpenCLEnvironment e (argv e ! 1) = CL_SUCCESS"
    and "read_input (atof e) (stdin e) = Inr sys" and "fopen_restart e (restfile sys) = Some fl"
  shows "\<exists>kss. kernels_dispatched (trace (main e)) =
       [opencl_azzero, opencl_force, opencl_ekin] @ concat kss
     \<and> length kss = nat (nsteps sys)
     \<and> (\<forall>ks\<in>set kss. prefix ks
          [opencl_verlet_first, opencl_force, opencl_verlet_second, opencl_ekin])
     \<and> opencl_azzero \<notin> set (concat kss)"
proof -
  obtain pss where pss: "dispatches (trace (main e)) =
       [(opencl_azzero, nat t), (opencl_force, nat t), (opencl_ekin, nat t)] @ concat pss"
    "length pss = nat (nsteps sys)"
    "\<forall>ps\<in>set pss. prefix ps [(opencl_verlet_first, nat t), (opencl_force, nat t),
        (opencl_verlet_second, nat t), (opencl_ekin, nat t)]"
    using main_iterations [OF assms] by (elim exE conjE)
  define kss where "kss = map (map fst) pss"
  have run: "kernels_dispatched (trace (main e)) =
      [opencl_azzero, opencl_force, opencl_ekin] @ concat kss"
    by (simp add: kernels_dispatched_def pss(1) kss_def map_concat)
  have len: "length kss = nat (nsteps sys)"
    by (simp add: kss_def pss(2))
  have pre: "\<forall>ks\<in>set kss. prefix ks
      [opencl_verlet_first, opencl_force, opencl_verlet_second, opencl_ekin]"
  proof
    fix ks
    assume "ks \<in> set kss"
    then obtain ps where ps: "ps \<in> set pss" "ks = map fst ps"
      by (auto simp add: kss_def)
    have "prefix ps [(opencl_verlet_first, nat t), (opencl_force, nat t),
        (opencl_verlet_second, nat t), (opencl_ekin, nat t)]"
      using pss(3) ps(1) by simp
    then have "prefix (map fst ps) (map fst [(opencl_verlet_first, nat t), (opencl_force, nat t),
        (opencl_verlet_second, nat t), (opencl_ekin, nat t)])"
      by (rule map_mono_prefix)
    then show "prefix ks [opencl_verlet_first, opencl_force, opencl_verlet_second, opencl_ekin]"
      by (simp add: ps(2))
  qed
  have no: "opencl_azzero \<notin> set (concat kss)"
  proof
    assume "opencl_azzero \<in> set (concat kss)"
    then obtain ks where ks: "ks \<in> set kss" "opencl_azzero \<in> set ks"
      by auto
    have "prefix ks [opencl_verlet_first, opencl_force, opencl_verlet_second, opencl_ekin]"
      using pre ks(1) by simp
    then have "set ks \<subseteq>
        set [opencl_verlet_first, opencl_force, opencl_verlet_second, opencl_ekin]"
      by (rule set_mono_prefix)
    then show False using ks(2) by auto
  qed
  show ?thesis using run len pre no by (intro exI conjI)
qed

theorem zero_fill_only_at_initialisation_witness:
  "handle_args (argv main_env) = Inr 2
   \<and> InitOpenCLEnvironment main_env (argv main_env ! 1) = CL_SUCCESS
   \<and> read_input (atof main_env) (stdin main_env) = Inr (example_sys 1 1)
   \<and> fopen_restart main_env (restfile (example_sys 1 1)) = Some ((\<lambda>i. 0), (\<lambda>i. 0), (\<lambda>i. 0))
   \<and> kernels_dispatched (trace (main main_env)) =
       [opencl_azzero, opencl_force, opencl_ekin,
        opencl_verlet_first, opencl_force, opencl_verlet_second, opencl_ekin]
   \<and> (\<exists>kss. kernels_dispatched (trace (main main_env)) =
          [opencl_azzero, opencl_force, opencl_ekin] @ concat kss
        \<and> length kss = nat (nsteps (example_sys 1 1))
        \<and> (\<forall>ks\<in>set kss. prefix ks
             [opencl_verlet_first, opencl_force, opencl_verlet_second, opencl_ekin])
        \<and> opencl_azzero \<notin> set (concat kss))"
proof -
  have a: "handle_args (argv main_env) = Inr 2"
    unfolding main_env_def example_env_fields by code_simp
  have b: "InitOpenCLEnvironment main_env (argv main_env ! 1) = CL_SUCCESS"
    by (simp add: main_env_def example_env_fields)
  have c: "read_input (atof main_env) (stdin main_env) = Inr (example_sys 1 1)"
    by (simp add: main_env_def example_env_fields example_input)
  have d: "fopen_restart main_env (restfile (example_sys 1 1)) =
      Some ((\<lambda>i. 0), (\<lambda>i. 0), (\<lambda>i. 0))"
    by (simp add: main_env_def example_env_fields)
  show ?thesis
    using zero_fill_only_at_initialisation [OF a b c d] a b c d main_env_run
    by (intro conjI)
qed

text \<open>
  C10 (three arguments, the thread count \<^verbatim>\<open>0\<close> or a string with no leading digits). Such an
  argument is converted to 0 by \<^verbatim>\<open>strtol\<close>; a string has no leading digits when, after the
  blanks and the optional sign \<^verbatim>\<open>strtol\<close> skips, it does not go on with a digit. The
  argument handling then gives \<^verbatim>\<open>nthreads = 0\<close>, the program never stops with the usage
  text, and every kernel it dispatches has the global work size 0.
\<close>

theorem zero_thread_count_accepted:
  assumes "s = ''0'' \<or> no_leading_digits s" and "argv e = [p, d, s]"
  shows "strtol s = 0 \<and> handle_args (argv e) = Inr 0
     \<and> halted (main e) \<noteq> Some PrintUsageAndExit
     \<and> snd ` set (dispatches (trace (main e))) \<subseteq> {0}"
proof -
  have z: "strtol s = 0"
    using assms(1) strtol_no_leading_digits [of s] strtol_zero by auto
  have a: "handle_args (argv e) = Inr 0"
    using handle_args_zero [OF assms(1), of p d] assms(2) by simp
  show ?thesis
    using z a main_after_arguments [OF a] by simp
qed

theorem zero_thread_count_accepted_witness:
  "no_leading_digits ''abc''
   \<and> argv zero_threads_env = [''./ljmd-cl.x'', ''cpu'', ''abc'']
   \<and> handle_args (argv zero_threads_env) = Inr 0
   \<and> halted (main zero_threads_env) \<noteq> Some PrintUsageAndExit
   \<and> snd ` set (dispatches (trace (main zero_threads_env))) \<subseteq> {0}
   \<and> (opencl_force, 0) \<in> set (dispatches (trace (main zero_threads_env)))"
proof -
  have n: "no_leading_digits ''abc''" by code_simp
  have v: "argv zero_threads_env = [''./ljmd-cl.x'', ''cpu'', ''abc'']"
    by (simp add: zero_threads_env_def example_env_fields)
  have t: "strtol ''abc'' = 0 \<and> handle_args (argv zero_threads_env) = Inr 0
     \<and> halted (main zero_threads_env) \<noteq> Some PrintUsageAndExit
     \<and> snd ` set (dispatches (trace (main zero_threads_env))) \<subseteq> {0}"
    by (rule zero_thread_count_accepted [of "''abc''" zero_threads_env "''./ljmd-cl.x''" "''cpu''"])
       (simp_all add: n v)
  then have a: "handle_args (argv zero_threads_env) = Inr 0" by (elim conjE)
  have b: "InitOpenCLEnvironment zero_threads_env (argv zero_threads_env ! 1) = CL_SUCCESS"
    by (simp add: zero_threads_env_def example_env_fields)
  have c: "read_input (atof zero_threads_env) (stdin zero_threads_env) = Inr (example_sys 1 1)"
    by (simp add: zero_threads_env_def example_env_fields example_input)
  have d: "fopen_restart zero_threads_env (restfile (example_sys 1 1)) =
      Some ((\<lambda>i. 0), (\<lambda>i. 0), (\<lambda>i. 0))"
    by (simp add: zero_threads_env_def example_env_fields)
  have "(opencl_force, 0) \<in> set (dispatches (trace (main zero_threads_env)))"
    using main_dispatches [OF a b c d] by auto
  then show ?thesis using n v t by simp
qed

subsection \<open>Exit statuses\<close>

lemma get_lines_fails:
  "read_fails_at k fp \<Longrightarrow> k < m \<Longrightarrow> get_lines m fp = Inl (Return 1)"
proof (induction k arbitrary: fp m)
  case 0
  then show ?case by (cases m) simp_all
next
  case (Suc k)
  then obtain m' where m: "m = Suc m'" "k < m'" by (cases m) auto
  from Suc.prems(1) obtain buf fp' where l: "get_me_a_line fp = Line buf fp'"
    and r: "read_fails_at k fp'"
    by (auto split: line_result.splits)
  show ?case using Suc.IH [OF r m(2)] by (simp add: m(1) l)
qed

lemma read_input_fails:
  "read_fails_at k fp \<Longrightarrow> k < 12 \<Longrightarrow> read_input af fp = Inl (Return 1)"
  by (simp add: read_input_def get_lines_fails)

text \<open>
  C8. Once the arguments are accepted: a failed initialisation of the device facility ends
  the program with status 4; a failed read of one of the twelve lines of the input script
  (the calls before it having returned a line) ends it with status 1, before any device
  call; a restart file that cannot be opened ends it with status 3.
\<close>

theorem exit_statuses:
  assumes "handle_args (argv e) = Inr t"
  shows "(InitOpenCLEnvironment e (argv e ! 1) \<noteq> CL_SUCCESS \<longrightarrow> exit_code e = Some 4)
     \<and> (InitOpenCLEnvironment e (argv e ! 1) = CL_SUCCESS \<and> k < 12 \<and> read_fails_at k (stdin e)
          \<longrightarrow> exit_code e = Some 1 \<and> trace (main e) = [])
     \<and> (InitOpenCLEnvironment e (argv e ! 1) = CL_SUCCESS
          \<and> read_input (atof e) (stdin e) = Inr sys \<and> fopen_restart e (restfile sys) = None
          \<longrightarrow> exit_code e = Some 3)"
proof (intro conjI impI)
  assume "InitOpenCLEnvironment e (argv e ! 1) \<noteq> CL_SUCCESS"
  then show "exit_code e = Some 4"
    using assms by (simp add: exit_code_def main_def stopped_facts)
next
  assume a: "InitOpenCLEnvironment e (argv e ! 1) = CL_SUCCESS \<and> k < 12 \<and> read_fails_at k (stdin e)"
  then have "read_input (atof e) (stdin e) = Inl (Return 1)"
    using read_input_fails [of k "stdin e" "atof e"] by simp
  then have m: "main e = stopped e (Return 1)"
    using assms a by (simp add: main_def)
  show "exit_code e = Some 1" by (simp add: exit_code_def m stopped_facts)
  show "trace (main e) = []" by (simp add: m stopped_facts)
next
  assume "InitOpenCLEnvironment e (argv e ! 1) = CL_SUCCESS
      \<and> read_input (atof e) (stdin e) = Inr sys \<and> fopen_restart e (restfile sys) = None"
  then show "exit_code e = Some 3"
    using assms by (simp add: exit_code_def main_def Let_def)
qed

lemma main_env_args: "handle_args (argv main_env) = Inr 2"
  unfolding main_env_def example_env_fields by code_simp

lemma short_input_fails: "read_fails_at 1 (''2'' @ [CHR 0x0A])"
  by code_simp

theorem exit_statuses_witness:
  "handle_args (argv init_fails_env) = Inr 2
   \<and> InitOpenCLEnvironment init_fails_env (argv init_fails_env ! 1) \<noteq> CL_SUCCESS
   \<and> exit_code init_fails_env = Some 4
   \<and> handle_args (argv short_input_env) = Inr 2
   \<and> InitOpenCLEnvironment short_input_env (argv short_input_env ! 1) = CL_SUCCESS
   \<and> (1::nat) < 12 \<and> read_fails_at 1 (stdin short_input_env)
   \<and> exit_code short_input_env = Some 1 \<and> trace (main short_input_env) = []
   \<and> handle_args (argv no_restart_env) = Inr 2
   \<and> InitOpenCLEnvironment no_restart_env (argv no_restart_env ! 1) = CL_SUCCESS
   \<and> read_input (atof no_restart_env) (stdin no_restart_env) = Inr (example_sys 1 1)
   \<and> fopen_restart no_restart_env (restfile (example_sys 1 1)) = None
   \<and> exit_code no_restart_env = Some 3"
proof -
  have a1: "handle_args (argv init_fails_env) = Inr 2"
    using main_env_args by (simp add: init_fails_env_def)
  have b1: "InitOpenCLEnvironment init_fails_env (argv init_fails_env ! 1) \<noteq> CL_SUCCESS"
    by (simp add: init_fails_env_def CL_SUCCESS_def)
  have a2: "handle_args (argv short_input_env) = Inr 2"
    using main_env_args by (simp add: short_input_env_def)
  have b2: "InitOpenCLEnvironment short_input_env (argv short_input_env ! 1) = CL_SUCCESS"
    by (simp add: short_input_env_def main_env_def example_env_fields)
  have c2: "read_fails_at 1 (stdin short_input_env)"
    using short_input_fails by (simp add: short_input_env_def)
  have a3: "handle_args (argv no_restart_env) = Inr 2"
    using main_env_args by (simp add: no_restart_env_def)
  have b3: "InitOpenCLEnvironment no_restart_env (argv no_restart_env ! 1) = CL_SUCCESS"
    by (simp add: no_restart_env_def main_env_def example_env_fields)
  have c3: "read_input (atof no_restart_env) (stdin no_restart_env) = Inr (example_sys 1 1)"
    by (simp add: no_restart_env_def main_env_def example_env_fields example_input)
  have d3: "fopen_restart no_restart_env (restfile (example_sys 1 1)) = None"
    by (simp add: no_restart_env_def)
  have "exit_code init_fails_env = Some 4"
    using exit_statuses [OF a1, of 0 "example_sys 1 1"] b1 by simp
  moreover have "exit_code short_input_env = Some 1 \<and> trace (main short_input_env) = []"
    using exit_statuses [OF a2, of 1 "example_sys 1 1"] b2 c2 by simp
  moreover have "exit_code no_restart_env = Some 3"
    using exit_statuses [OF a3, of 0 "example_sys 1 1"] b3 c3 d3 by simp
  ultimately show ?thesis
    using a1 b1 a2 b2 c2 a3 b3 c3 d3 by simp
qed

subsection \<open>The status variable\<close>

lemma md_step_ignores_verlet_first_status:
  assumes calls: "\<And>l. l \<noteq> 367 \<Longrightarrow> call_status e l n = CL_SUCCESS"
    and s: "halted s = None" "status s = CL_SUCCESS"
    and np: "nprint sys \<noteq> 0" and rb: "n smod nprint sys = nprint sys - 1"
  shows "halted (md_step e sys g n s) = None"
proof -
  define s1 where "s1 = verlet_first e g (s\<lparr>sys_nfi := n\<rparr>)"
  define s2 where "s2 = download_positions e sys s1"
  define s3 where "s3 = force e g s2"
  define s4 where "s4 = download_epot e sys g s3"
  define s5 where "s5 = verlet_second e g s4"
  define s6 where "s6 = ekin_and_download e sys g s5"
  have step: "md_step e sys g n s = write_output sys g s6"
    using s by (simp add: md_step_unfold guarded_def s1_def s2_def s3_def s4_def s5_def s6_def)
  have a1: "halted s1 = None" "sys_nfi s1 = n"
    using s calls [of 352]
    by (simp_all add: s1_def verlet_first_def run_all_def call_defs field_simps_calls
          CL_SUCCESS_def)
  have e2: "s2 = s1\<lparr>status := CL_SUCCESS,
       buffers0 := copy_n (nat (natoms sys)) (cl_rx (dev s1)) (buffers0 s1),
       buffers1 := copy_n (nat (natoms sys)) (cl_ry (dev s1)) (buffers1 s1),
       buffers2 := copy_n (nat (natoms sys)) (cl_rz (dev s1)) (buffers2 s1),
       trace := trace s1 @ [Call 371, Call 372, Call 373, CheckSuccess 6]\<rparr>"
    unfolding s2_def using a1 np rb calls [of 371] calls [of 372] calls [of 373]
    by (intro download_positions_success) simp_all
  have a2: "halted s2 = None" "status s2 = CL_SUCCESS" "sys_nfi s2 = n"
    using a1 by (simp_all add: e2)
  have e3: "s3 = s2\<lparr>dev := run_kernel e opencl_force g (dev s2),
       trace := trace s2 @ [Call 382, CheckSuccess 3, Dispatch opencl_force g]\<rparr>"
    unfolding s3_def using a2 calls [of 382] calls [of 398]
    by (intro force_success) simp_all
  have a3: "halted s3 = None" "status s3 = CL_SUCCESS" "sys_nfi s3 = n"
    using a2 by (simp_all add: e3)
  have e4: "s4 = s3\<lparr>tmp_epot := copy_n g (epot_buffer (dev s3)) (tmp_epot s3),
       trace := trace s3 @ [Call 402, CheckSuccess 7]\<rparr>"
    unfolding s4_def using a3 np rb calls [of 402]
    by (intro download_epot_success) simp_all
  have a4: "halted s4 = None" "status s4 = CL_SUCCESS" "sys_nfi s4 = n"
    using a3 by (simp_all add: e4)
  have e5: "s5 = s4\<lparr>dev := run_kernel e opencl_verlet_second g (dev s4),
       trace := trace s4 @ [Call 407, CheckSuccess 4, Dispatch opencl_verlet_second g]\<rparr>"
    unfolding s5_def using a4 calls [of 407] calls [of 419]
    by (intro verlet_second_success) simp_all
  have a5: "halted s5 = None" "status s5 = CL_SUCCESS" "sys_nfi s5 = n"
    using a4 by (simp_all add: e5)
  have e6: "s6 = s5\<lparr>dev := run_kernel e opencl_ekin g (dev s5),
       tmp_ekin := copy_n g (ekin_buffer (run_kernel e opencl_ekin g (dev s5))) (tmp_ekin s5),
       trace := trace s5 @ [Call 424, CheckSuccess 5, Dispatch opencl_ekin g, Call 431,
         CheckSuccess 8]\<rparr>"
    unfolding s6_def using a5 np rb calls [of 424] calls [of 427] calls [of 431]
    by (intro ekin_and_download_success) simp_all
  have a6: "halted s6 = None" "sys_nfi s6 = n"
    using a5 by (simp_all add: e6)
  show ?thesis
    using a6 np
    by (cases "n smod nprint sys = 0")
       (simp_all add: step write_output_run write_output_skipped)
qed

lemma md_step_reports_force_status:
  assumes calls: "\<And>l. l \<noteq> 398 \<Longrightarrow> call_status e l n = CL_SUCCESS"
    and f: "call_status e 398 n \<noteq> CL_SUCCESS"
    and s: "halted s = None" "status s = CL_SUCCESS"
    and np: "nprint sys \<noteq> 0" and rb: "n smod nprint sys = nprint sys - 1"
  shows "halted (md_step e sys g n s) = Some (CheckSuccessFailed 7)"
proof -
  define s1 where "s1 = verlet_first e g (s\<lparr>sys_nfi := n\<rparr>)"
  define s2 where "s2 = download_positions e sys s1"
  define s3 where "s3 = force e g s2"
  define s4 where "s4 = download_epot e sys g s3"
  have step: "md_step e sys g n s =
      write_output sys g (ekin_and_download e sys g (verlet_second e g s4))"
    using s by (simp add: md_step_unfold guarded_def s1_def s2_def s3_def s4_def)
  have e1: "s1 = s\<lparr>sys_nfi := n, dev := run_kernel e opencl_verlet_first g (dev s),
       trace := trace s @ [Call 352, CheckSuccess 2, Dispatch opencl_verlet_first g]\<rparr>"
    using s calls [of 352] calls [of 367] by (simp add: s1_def verlet_first_success)
  have a1: "halted s1 = None" "sys_nfi s1 = n"
    using s by (simp_all add: e1)
  have e2: "s2 = s1\<lparr>status := CL_SUCCESS,
       buffers0 := copy_n (nat (natoms sys)) (cl_rx (dev s1)) (buffers0 s1),
       buffers1 := copy_n (nat (natoms sys)) (cl_ry (dev s1)) (buffers1 s1),
       buffers2 := copy_n (nat (natoms sys)) (cl_rz (dev s1)) (buffers2 s1),
       trace := trace s1 @ [Call 371, Call 372, Call 373, CheckSuccess 6]\<rparr>"
    unfolding s2_def using a1 np rb calls [of 371] calls [of 372] calls [of 373]
    by (intro download_positions_success) simp_all
  have a2: "halted s2 = None" "status s2 = CL_SUCCESS" "sys_nfi s2 = n"
    using a1 by (simp_all add: e2)
  have a3: "halted s3 = None" "status s3 = call_status e 398 n" "sys_nfi s3 = n"
    using a2 calls [of 382]
    by (simp_all add: s3_def force_def run_all_def call_defs field_simps_calls CL_SUCCESS_def)
  have a4: "halted s4 = Some (CheckSuccessFailed 7)"
    using a3 np rb f calls [of 402]
    by (simp add: s4_def download_epot_def if_nfi_mod_def run_all_def call_defs
          field_simps_calls CL_SUCCESS_def)
  then have "verlet_second e g s4 = s4" by (simp add: verlet_second_halted)
  then have "ekin_and_download e sys g (verlet_second e g s4) = s4"
    using a4 by (simp add: ekin_and_download_halted)
  then have "md_step e sys g n s = s4"
    using a4 by (simp add: step write_output_halted)
  then show ?thesis using a4 by simp
qed

text \<open>
  C6 (between two checkpoints every status is accumulated by OR, none is overwritten).
  The status of the dispatch at line 367 is assigned after checkpoint 2; on a read-back step
  line 371 assigns the status of the position download over it before checkpoint 6 looks at
  the variable. In this run the dispatch of step 1 fails, no checkpoint notices, and the
  program ends with status 0. The same failure at the dispatch of the force kernel (line
  398), whose read-back at line 402 accumulates with \<^verbatim>\<open>|=\<close>, stops the run at checkpoint 7.
\<close>

theorem failed_dispatch_status_is_overwritten:
  "call_status lost_status_env 367 1 \<noteq> CL_SUCCESS
   \<and> halted (main lost_status_env) = Some (Return 0)
   \<and> exit_code lost_status_env = Some 0
   \<and> call_status kept_status_env 398 1 \<noteq> CL_SUCCESS
   \<and> halted (main kept_status_env) = Some (CheckSuccessFailed 7)"
proof -
  have a: "handle_args (argv lost_status_env) = Inr 2"
    unfolding lost_status_env_def example_env_fields by code_simp
  have b: "InitOpenCLEnvironment lost_status_env (argv lost_status_env ! 1) = CL_SUCCESS"
    by (simp add: lost_status_env_def example_env_fields)
  have c: "read_input (atof lost_status_env) (stdin lost_status_env) = Inr (example_sys 1 1)"
    by (simp add: lost_status_env_def example_env_fields example_input)
  have d: "fopen_restart lost_status_env (restfile (example_sys 1 1)) =
      Some ((\<lambda>i. 0), (\<lambda>i. 0), (\<lambda>i. 0))"
    by (simp add: lost_status_env_def example_env_fields)
  define s0 where "s0 = loop_entry lost_status_env (example_sys 1 1) (nat 2)
      ((\<lambda>i. 0), (\<lambda>i. 0), (\<lambda>i. 0))"
  have st: "call_status lost_status_env = dispatch_fails"
    by (simp add: lost_status_env_def example_env_fields)
  have s0: "halted s0 = None" "status s0 = CL_SUCCESS"
    by (simp_all add: s0_def loop_entry_facts st dispatch_fails_def CL_SUCCESS_def)
  have calls: "\<And>l. l \<noteq> 367 \<Longrightarrow> call_status lost_status_env l 1 = CL_SUCCESS"
    by (simp add: st dispatch_fails_def)
  have "halted (md_step lost_status_env (example_sys 1 1) (nat 2) 1 s0) = None"
    using calls s0
    by (rule md_step_ignores_verlet_first_status)
       (simp_all add: example_sys_fields signed_modulo_int_def)
  then have h: "halted (main lost_status_env) = Some (Return 0)"
    by (simp add: main_run [OF a b c d] finish_facts md_loop_step md_loop_nonpos
          example_sys_fields s0_def)
  have f: "call_status lost_status_env 367 1 \<noteq> CL_SUCCESS"
    by (simp add: st dispatch_fails_def CL_SUCCESS_def)
  have a': "handle_args (argv kept_status_env) = Inr 2"
    unfolding kept_status_env_def example_env_fields by code_simp
  have b': "InitOpenCLEnvironment kept_status_env (argv kept_status_env ! 1) = CL_SUCCESS"
    by (simp add: kept_status_env_def example_env_fields)
  have c': "read_input (atof kept_status_env) (stdin kept_status_env) = Inr (example_sys 1 1)"
    by (simp add: kept_status_env_def example_env_fields example_input)
  have d': "fopen_restart kept_status_env (restfile (example_sys 1 1)) =
      Some ((\<lambda>i. 0), (\<lambda>i. 0), (\<lambda>i. 0))"
    by (simp add: kept_status_env_def example_env_fields)
  define s0' where "s0' = loop_entry kept_status_env (example_sys 1 1) (nat 2)
      ((\<lambda>i. 0), (\<lambda>i. 0), (\<lambda>i. 0))"
  have st': "call_status kept_status_env = force_dispatch_fails"
    by (simp add: kept_status_env_def example_env_fields)
  have s0': "halted s0' = None" "status s0' = CL_SUCCESS"
    by (simp_all add: s0'_def loop_entry_facts st' force_dispatch_fails_def CL_SUCCESS_def)
  have calls': "\<And>l. l \<noteq> 398 \<Longrightarrow> call_status kept_status_env l 1 = CL_SUCCESS"
    by (simp add: st' force_dispatch_fails_def)
  have f': "call_status kept_status_env 398 1 \<noteq> CL_SUCCESS"
    by (simp add: st' force_dispatch_fails_def CL_SUCCESS_def)
  have "halted (md_step kept_status_env (example_sys 1 1) (nat 2) 1 s0') =
      Some (CheckSuccessFailed 7)"
    using calls' f' s0'
    by (rule md_step_reports_force_status)
       (simp_all add: example_sys_fields signed_modulo_int_def)
  then have h': "halted (main kept_status_env) = Some (CheckSuccessFailed 7)"
    by (simp add: main_run [OF a' b' c' d'] finish_facts md_loop_step md_loop_nonpos
          example_sys_fields s0'_def)
  show ?thesis
    using f h f' h' by (simp add: exit_code_def)
qed

subsection \<open>Energies\<close>

lemma field_kept_device_call:
  assumes "\<And>t x y. f (t\<lparr>status := x, trace := y\<rparr>) = f t" and "\<And>t. f (eff t) = f t"
  shows "f (device_call e a l ev eff s) = f s"
  using assms by (simp add: device_call_def Let_def)

lemma field_kept_guarded: "(\<And>t. f (h t) = f t) \<Longrightarrow> f (guarded h s) = f s"
  by (simp add: guarded_def)

lemma field_of_guarded: "f (guarded h s) = (if halted s = None then f (h s) else f s)"
  by (simp add: guarded_def)

lemmas sys_ekin_kept = field_kept_device_call [where f = sys_ekin]
  field_kept_guarded [where f = sys_ekin]

lemmas sys_temp_kept = field_kept_device_call [where f = sys_temp]
  field_kept_guarded [where f = sys_temp]

lemmas tmp_ekin_kept = field_kept_device_call [where f = tmp_ekin]
  field_kept_guarded [where f = tmp_ekin]

lemma initial_forces_energies_ekin:
  assumes "halted s = None"
  shows "sys_ekin (initial_forces_energies e sys g s) =
       (\<Sum>i<g. tmp_ekin (initial_forces_energies e sys g s) i) * (1 / 2 * mass sys * mvsq2e)"
    and "sys_temp (initial_forces_energies e sys g s) =
       2 * sys_ekin (initial_forces_energies e sys g s) /
         ((3 * real_of_int (natoms sys) - 3) * kboltz)"
    and "outputs (trace (initial_forces_energies e sys g s)) \<noteq> []"
    and "o_ekin (last (outputs (trace (initial_forces_energies e sys g s)))) =
       sys_ekin (initial_forces_energies e sys g s)"
    and "o_temp (last (outputs (trace (initial_forces_energies e sys g s)))) =
       sys_temp (initial_forces_energies e sys g s)"
proof -
  define y where "y = run_all
       [guarded (\<lambda>s. s\<lparr>sys_epot := 0, sys_ekin := 0\<rparr>),
        set_args e Assign 279,
        enqueue_kernel e Assign 281 opencl_azzero g,
        set_args e OrAssign 283,
        enqueue_kernel e Assign 298 opencl_force g,
        read_buffer e OrAssign 300
          (\<lambda>s. s\<lparr>tmp_epot := copy_n g (epot_buffer (dev s)) (tmp_epot s)\<rparr>),
        guarded (\<lambda>s. s\<lparr>sys_epot := accumulate (tmp_epot s) g (sys_epot s)\<rparr>),
        create e Assign 307,
        set_args e OrAssign 309,
        enqueue_kernel e Assign 312 opencl_ekin g,
        read_buffer e OrAssign 314
          (\<lambda>s. s\<lparr>tmp_ekin := copy_n g (ekin_buffer (dev s)) (tmp_ekin s)\<rparr>)] s"
  define x where "x = run_all
       [guarded (\<lambda>s. s\<lparr>sys_ekin := accumulate (tmp_ekin s) g (sys_ekin s)\<rparr>),
        guarded (finalize_ekin sys),
        read_buffer e Assign 327
          (\<lambda>s. s\<lparr>buffers0 := copy_n (nat (natoms sys)) (cl_rx (dev s)) (buffers0 s)\<rparr>),
        read_buffer e OrAssign 328
          (\<lambda>s. s\<lparr>buffers1 := copy_n (nat (natoms sys)) (cl_ry (dev s)) (buffers1 s)\<rparr>),
        read_buffer e OrAssign 329
          (\<lambda>s. s\<lparr>buffers2 := copy_n (nat (natoms sys)) (cl_rz (dev s)) (buffers2 s)\<rparr>)] y"
  have eq: "initial_forces_energies e sys g s = guarded (output_data sys) x"
    by (simp add: initial_forces_energies_def x_def y_def run_all_def)
  have hy: "halted y = None"
    using assms by (simp add: y_def run_all_def call_defs field_simps_calls halted_guarded)
  have ey: "sys_ekin y = 0"
    using assms by (simp add: y_def run_all_def call_defs sys_ekin_kept field_of_guarded
          field_simps_calls halted_guarded)
  have hx: "halted x = None"
    using hy by (simp add: x_def run_all_def call_defs field_simps_calls halted_guarded)
  have tx: "tmp_ekin x = tmp_ekin y"
    by (simp add: x_def run_all_def call_defs tmp_ekin_kept finalize_ekin_def Let_def)
  have ex: "sys_ekin x = (\<Sum>i<g. tmp_ekin y i) * (1 / 2 * mass sys * mvsq2e)"
    using hy ey
    by (simp add: x_def run_all_def call_defs sys_ekin_kept field_of_guarded field_simps_calls
          halted_guarded finalize_ekin_def Let_def accumulate_sum HALF_def)
  have mx: "sys_temp x = 2 * sys_ekin x / ((3 * real_of_int (natoms sys) - 3) * kboltz)"
    using hy ey
    by (simp add: x_def run_all_def call_defs sys_temp_kept sys_ekin_kept field_of_guarded
          field_simps_calls halted_guarded finalize_ekin_def Let_def accumulate_sum HALF_def
          TWO_def THREE_def)
  have s': "initial_forces_energies e sys g s = output_data sys x"
    using hx by (simp add: eq guarded_def)
  show "sys_ekin (initial_forces_energies e sys g s) =
       (\<Sum>i<g. tmp_ekin (initial_forces_energies e sys g s) i) * (1 / 2 * mass sys * mvsq2e)"
    by (simp add: s' output_data_def ex tx)
  show "sys_temp (initial_forces_energies e sys g s) =
       2 * sys_ekin (initial_forces_energies e sys g s) /
         ((3 * real_of_int (natoms sys) - 3) * kboltz)"
    by (simp add: s' output_data_def mx)
  show "outputs (trace (initial_forces_energies e sys g s)) \<noteq> []"
    by (simp add: s' output_data_def)
  show "o_ekin (last (outputs (trace (initial_forces_energies e sys g s)))) =
       sys_ekin (initial_forces_energies e sys g s)"
    by (simp add: s' output_data_def)
  show "o_temp (last (outputs (trace (initial_forces_energies e sys g s)))) =
       sys_temp (initial_forces_energies e sys g s)"
    by (simp add: s' output_data_def)
qed

lemma md_step_boundary_ekin:
  assumes s: "halted s = None" and np: "nprint sys \<noteq> 0" and b: "n smod nprint sys = 0"
    and h: "halted (md_step e sys g n s) = None"
  shows "sys_ekin (md_step e sys g n s) =
       (\<Sum>i<g. tmp_ekin (md_step e sys g n s) i) * (1 / 2 * mass sys * mvsq2e)"
    and "sys_temp (md_step e sys g n s) =
       2 * sys_ekin (md_step e sys g n s) / ((3 * real_of_int (natoms sys) - 3) * kboltz)"
    and "outputs (trace (md_step e sys g n s)) \<noteq> []"
    and "o_ekin (last (outputs (trace (md_step e sys g n s)))) = sys_ekin (md_step e sys g n s)"
    and "o_temp (last (outputs (trace (md_step e sys g n s)))) = sys_temp (md_step e sys g n s)"
proof -
  define t where "t = ekin_and_download e sys g (verlet_second e g (download_epot e sys g
       (force e g (download_positions e sys (verlet_first e g (s\<lparr>sys_nfi := n\<rparr>))))))"
  have step: "md_step e sys g n s = write_output sys g t"
    using s by (simp add: md_step_unfold guarded_def t_def)
  have ht: "halted t = None"
    by (metis h step write_output_halted)
  have nt: "sys_nfi t = n" by (simp add: t_def)
  note run = write_output_run [OF ht np, of g, unfolded nt, OF b]
  show "sys_ekin (md_step e sys g n s) =
       (\<Sum>i<g. tmp_ekin (md_step e sys g n s) i) * (1 / 2 * mass sys * mvsq2e)"
    by (simp add: step run report_def Let_def)
  show "sys_temp (md_step e sys g n s) =
       2 * sys_ekin (md_step e sys g n s) / ((3 * real_of_int (natoms sys) - 3) * kboltz)"
    by (simp add: step run report_def Let_def)
  show "outputs (trace (md_step e sys g n s)) \<noteq> []"
    by (simp add: step run)
  show "o_ekin (last (outputs (trace (md_step e sys g n s)))) = sys_ekin (md_step e sys g n s)"
    by (simp add: step run)
  show "o_temp (last (outputs (trace (md_step e sys g n s)))) = sys_temp (md_step e sys g n s)"
    by (simp add: step run)
qed

text \<open>
  C3 (with \<^verbatim>\<open>FPTYPE\<close> as exact reals). After the initialisation, and after every iteration
  at a print boundary that is not aborted, the kinetic energy is the sum of the staged
  per-worker partials over the \<open>nthreads\<close> workers times one half, the mass and
  \<open>mvsq2e\<close>, the temperature is \<open>2 Ekin / ((3N - 3) kboltz)\<close>, and these are the values
  in the record just written; for every \<open>N \<ge> 2\<close>, whatever the device calls return.
\<close>

theorem kinetic_energy_and_temperature:
  assumes "2 \<le> natoms sys" and "halted s = None"
  shows "energies_finalized sys g (initial_forces_energies e sys g s)
     \<and> (nprint sys \<noteq> 0 \<and> n smod nprint sys = 0 \<and> halted (md_step e sys g n s) = None
          \<longrightarrow> energies_finalized sys g (md_step e sys g n s))"
  using initial_forces_energies_ekin [OF assms(2), of e sys g]
    md_step_boundary_ekin [OF assms(2), of sys n e g]
  by (simp add: energies_finalized_def)

lemma example_kernel_vx:
  "cl_vx (example_kernel k g d) i = cl_vx d i + (if k = opencl_verlet_second then 1 else 0)"
  by (cases k) (simp_all add: example_kernel_def)

lemma example_kernel_ekin:
  "ekin_buffer (example_kernel opencl_ekin g d) i = cl_vx d 0"
  by (simp add: example_kernel_def)

theorem kinetic_energy_and_temperature_witness:
  "2 \<le> natoms (example_sys 2 1) \<and> halted (initial_state loop_env) = None
   \<and> nprint (example_sys 2 1) \<noteq> 0 \<and> 1 smod nprint (example_sys 2 1) = 0
   \<and> halted (md_step loop_env (example_sys 2 1) 2 1 (initial_state loop_env)) = None
   \<and> energies_finalized (example_sys 2 1) 2
        (initial_forces_energies loop_env (example_sys 2 1) 2 (initial_state loop_env))
   \<and> energies_finalized (example_sys 2 1) 2
        (md_step loop_env (example_sys 2 1) 2 1 (initial_state loop_env))
   \<and> sys_ekin (md_step loop_env (example_sys 2 1) 2 1 (initial_state loop_env)) = mvsq2e"
proof -
  have calls: "\<And>l. call_status loop_env l 1 = CL_SUCCESS"
    using all_succeed_loop_env by (simp add: all_succeed_def)
  have a: "2 \<le> natoms (example_sys 2 1)" "nprint (example_sys 2 1) \<noteq> 0"
    "1 smod nprint (example_sys 2 1) = 0"
    "1 smod nprint (example_sys 2 1) = nprint (example_sys 2 1) - 1"
    by (simp_all add: example_sys_fields signed_modulo_int_def)
  have h: "halted (md_step loop_env (example_sys 2 1) 2 1 (initial_state loop_env)) = None"
    using md_step_ok [OF calls initial_state_ok(1,2) a(2), of 2] by simp
  have t: "energies_finalized (example_sys 2 1) 2
        (initial_forces_energies loop_env (example_sys 2 1) 2 (initial_state loop_env))
     \<and> (nprint (example_sys 2 1) \<noteq> 0 \<and> 1 smod nprint (example_sys 2 1) = 0
          \<and> halted (md_step loop_env (example_sys 2 1) 2 1 (initial_state loop_env)) = None
          \<longrightarrow> energies_finalized (example_sys 2 1) 2
                (md_step loop_env (example_sys 2 1) 2 1 (initial_state loop_env)))"
    by (rule kinetic_energy_and_temperature [OF a(1) initial_state_ok(1)])
  then have f: "energies_finalized (example_sys 2 1) 2
        (md_step loop_env (example_sys 2 1) 2 1 (initial_state loop_env))"
    using a h by simp
  have k: "tmp_ekin (md_step loop_env (example_sys 2 1) 2 1 (initial_state loop_env)) i =
      (if i < 2 then 1 else 0)" for i
    using md_step_readback(8) [OF calls initial_state_ok(1,2) a(2) a(4), of 2]
    by (simp add: copy_n_def run_kernel_loop_env example_kernel_ekin example_kernel_vx
          initial_state_def)
       (simp add: loop_env_def example_env_def zero_device_def)
  have "sys_ekin (md_step loop_env (example_sys 2 1) 2 1 (initial_state loop_env)) = mvsq2e"
    using f by (simp add: energies_finalized_def k example_sys_fields)
  then show ?thesis
    using a h t f initial_state_ok(1) [of loop_env] by simp
qed

end
